theory Spec2Isabelle
  imports Complex_Main
begin

section \<open>The voxel-grid generator \<^verbatim>\<open>inputgeneration.c\<close>\<close>

text \<open>
  The program resolves the grid parameters from its arguments, opens the output file,
  writes a header of 16 integers (unless compiled with \<^verbatim>\<open>-DRAW\<close>) and then generates
  the grid in chunks of at most \<^verbatim>\<open>OBJ_BUFFER\<close> horizontal layers, appending every chunk
  to the file.

  Conventions of the model.
  \<^item> C \<^verbatim>\<open>int\<close> values are integers. Where the arguments of the run reach the
    arithmetic (\<^verbatim>\<open>atoi\<close> and the parameters computed from the pixel count), a result
    outside the 32-bit range wraps around (\<open>int32\<close>), as the compiled program does.
    The loop counter and the element count of a chunk are not wrapped; the theorems
    that depend on them bound them. Division truncates towards zero (\<open>c_div\<close>);
    a zero divisor traps and is outside the model.
  \<^item> \<^verbatim>\<open>double\<close> arithmetic is correctly rounded real arithmetic: the rounding function
    of the platform is the parameter \<open>rnd\<close>. Conversion of an \<^verbatim>\<open>int\<close> to \<^verbatim>\<open>double\<close>
    is exact; conversion back truncates towards zero, and gives \<open>- 2 ^ 31\<close> for a value
    outside the range of \<^verbatim>\<open>int\<close>, as the conversion instruction of x86-64 does.
  \<^item> The macros of \<^verbatim>\<open>common.h\<close> are the fields of the record \<open>defaults\<close>; the functions
    of \<^verbatim>\<open>voxel.c\<close> are the parameter \<open>V\<close>, called with the global variables, the
    name of the function, its three integer arguments and the buffer.
  \<^item> The file system is an environment: whether \<^verbatim>\<open>fopen\<close> succeeds, and for every
    \<^verbatim>\<open>fwrite\<close> call in turn whether it is complete (\<open>None\<close>) or accepts at most a
    given number of elements.
  \<^item> \<^verbatim>\<open>sizeof(int) = 4\<close>, \<^verbatim>\<open>sizeof(double) = 8\<close>, \<^verbatim>\<open>size_t\<close> has 64 bits and
    \<^verbatim>\<open>EXIT_FAILURE = 1\<close>, as on the gcc targets the program is built for.
    \<^verbatim>\<open>malloc\<close> is taken to succeed (the source does not check it).
\<close>

subsection \<open>Integers and \<^verbatim>\<open>atoi\<close>\<close>

definition c_div :: "int \<Rightarrow> int \<Rightarrow> int" where
  "c_div a b = sgn a * sgn b * (\<bar>a\<bar> div \<bar>b\<bar>)"

definition c_trunc :: "real \<Rightarrow> int" where
  "c_trunc x = (if 0 \<le> x then \<lfloor>x\<rfloor> else \<lceil>x\<rceil>)"

text \<open>A result of 32-bit signed arithmetic: the value modulo \<open>2 ^ 32\<close>, in
  \<open>[- 2 ^ 31, 2 ^ 31)\<close>.\<close>

definition int32 :: "int \<Rightarrow> int" where
  "int32 k = (k + 2 ^ 31) mod 2 ^ 32 - 2 ^ 31"

definition double_to_int :: "real \<Rightarrow> int" where
  "double_to_int x =
     (if - (2 ^ 31) \<le> c_trunc x \<and> c_trunc x < 2 ^ 31 then c_trunc x else - (2 ^ 31))"

definition size_t :: "int \<Rightarrow> nat" where
  "size_t k = nat (k mod 2 ^ 64)"

definition sizeof_int :: nat where
  "sizeof_int = 4"

definition sizeof_double :: nat where
  "sizeof_double = 8"

definition EXIT_FAILURE :: int where
  "EXIT_FAILURE = 1"

definition isspace :: "char \<Rightarrow> bool" where
  "isspace c = (of_char c \<in> {32, 9, 10, 11, 12, 13 :: nat})"

definition isdigit :: "char \<Rightarrow> bool" where
  "isdigit c = (48 \<le> (of_char c :: nat) \<and> (of_char c :: nat) \<le> 57)"

fun digits_value :: "int \<Rightarrow> string \<Rightarrow> int" where
  "digits_value acc [] = acc"
| "digits_value acc (c # cs) =
     (if isdigit c then digits_value (10 * acc + (of_char c - 48)) cs else acc)"

text \<open>The number a string starts with: leading white space, an optional sign, then the
  longest run of decimal digits; \<open>0\<close> when there is none.\<close>

definition leading_number :: "string \<Rightarrow> int" where
  "leading_number str =
     (case dropWhile isspace str of
        [] \<Rightarrow> 0
      | c # cs \<Rightarrow>
          if c = CHR ''-'' then - digits_value 0 cs
          else if c = CHR ''+'' then digits_value 0 cs
          else digits_value 0 (c # cs))"

text \<open>\<^verbatim>\<open>atoi\<close> of the C library is \<^verbatim>\<open>(int) strtol(str, NULL, 10)\<close>: \<^verbatim>\<open>strtol\<close> gives
  the leading number, held to the range of a 64-bit \<^verbatim>\<open>long\<close>, and the cast keeps its low
  32 bits.\<close>

definition atoi :: "string \<Rightarrow> int" where
  "atoi str = int32 (max (- (2 ^ 63)) (min (2 ^ 63 - 1) (leading_number str)))"

subsection \<open>The constants of \<^verbatim>\<open>common.h\<close> and the global variables\<close>

datatype axis = X | Y | Z

record defaults =
  PIXEL_DIM :: int
  ANGULAR_TRAJECTORY :: int
  POSITIONS_ANGULAR_DISTANCE :: int
  OBJECT_SIDE_LENGTH :: int
  DETECTOR_SIDE_LENGTH :: int
  DISTANCE_OBJECT_DETECTOR :: int
  DISTANCE_OBJECT_SOURCE :: int
  VOXEL_X_DIM :: int
  VOXEL_Y_DIM :: int
  VOXEL_Z_DIM :: int
  N_VOXEL :: "axis \<Rightarrow> int"
  N_PLANES :: "axis \<Rightarrow> int"

definition OBJ_BUFFER :: int where
  "OBJ_BUFFER = 100"

definition N_PIXEL_ALONG_SIDE :: "defaults \<Rightarrow> int" where
  "N_PIXEL_ALONG_SIDE d = c_div (DETECTOR_SIDE_LENGTH d) (PIXEL_DIM d)"

record globals =
  gl_pixelDim :: int
  gl_angularTrajectory :: int
  gl_positionsAngularDistance :: int
  gl_objectSideLenght :: int
  gl_detectorSideLength :: int
  gl_distanceObjectDetector :: int
  gl_distanceObjectSource :: int
  gl_voxelXDim :: int
  gl_voxelYDim :: int
  gl_voxelZDim :: int
  gl_nVoxel :: "axis \<Rightarrow> int"
  gl_nPlanes :: "axis \<Rightarrow> int"

text \<open>The initialisers of the global variables (lines 91 to 108).\<close>

definition initial_globals :: "defaults \<Rightarrow> globals" where
  "initial_globals d =
     \<lparr> gl_pixelDim = PIXEL_DIM d,
       gl_angularTrajectory = ANGULAR_TRAJECTORY d,
       gl_positionsAngularDistance = POSITIONS_ANGULAR_DISTANCE d,
       gl_objectSideLenght = OBJECT_SIDE_LENGTH d,
       gl_detectorSideLength = DETECTOR_SIDE_LENGTH d,
       gl_distanceObjectDetector = DISTANCE_OBJECT_DETECTOR d,
       gl_distanceObjectSource = DISTANCE_OBJECT_SOURCE d,
       gl_voxelXDim = VOXEL_X_DIM d,
       gl_voxelYDim = VOXEL_Y_DIM d,
       gl_voxelZDim = VOXEL_Z_DIM d,
       gl_nVoxel = N_VOXEL d,
       gl_nPlanes = N_PLANES d \<rparr>"

definition gl_voxelDim :: "globals \<Rightarrow> axis \<Rightarrow> int" where
  "gl_voxelDim g i = (case i of X \<Rightarrow> gl_voxelXDim g | Y \<Rightarrow> gl_voxelYDim g | Z \<Rightarrow> gl_voxelZDim g)"

subsection \<open>The output stream\<close>

datatype 'v cell = IntCell int | DoubleCell 'v

record 'v stream =
  content :: "'v cell list"
  room :: "nat option list"

text \<open>\<^verbatim>\<open>fwrite\<close> appends the elements the stream accepts and returns their number: all of
  them when the environment says \<open>None\<close> for this call (or says nothing any more), at most
  \<open>c\<close> of them when it says \<open>Some c\<close>.\<close>

definition fwrite :: "'v cell list \<Rightarrow> 'v stream \<Rightarrow> nat \<times> 'v stream" where
  "fwrite cells f =
     (let k = (case room f of
                 [] \<Rightarrow> length cells
               | None # _ \<Rightarrow> length cells
               | Some c # _ \<Rightarrow> min c (length cells))
      in (k, \<lparr> content = content f @ take k cells, room = tl (room f) \<rparr>))"

record env =
  fopen_ok :: bool
  faults :: "nat option list"

subsection \<open>The program state\<close>

datatype generator = generateCubeWithSphereSlice | generateSphereSlice | generateCubeSlice

type_synonym slice_call = "generator \<times> int \<times> int \<times> int"

type_synonym 'v voxel_module =
  "globals \<Rightarrow> generator \<Rightarrow> int \<Rightarrow> int \<Rightarrow> int \<Rightarrow> (nat \<Rightarrow> 'v) \<Rightarrow> (nat \<Rightarrow> 'v)"

datatype message =
    Usage string
  | UnableToOpenFile
  | UnableToWriteOnFile
  | OutputFileDetails nat nat int int nat int

datatype channel = Stdout | Stderr

text \<open>The state: the global variables, the output file, the generation buffer, and two
  logs the source does not keep but an observer of the process has: the calls into
  \<^verbatim>\<open>voxel.c\<close> in order and the messages printed.\<close>

record 'v state =
  gl :: globals
  filePoiter :: "'v stream"
  grid :: "nat \<Rightarrow> 'v"
  calls :: "slice_call list"
  printed :: "(channel \<times> message) list"

subsection \<open>\<^verbatim>\<open>writeSetUp\<close>\<close>

definition setUp :: "globals \<Rightarrow> int list" where
  "setUp g =
     [gl_pixelDim g, gl_angularTrajectory g, gl_positionsAngularDistance g,
      gl_objectSideLenght g, gl_detectorSideLength g, gl_distanceObjectDetector g,
      gl_distanceObjectSource g, gl_voxelXDim g, gl_voxelYDim g, gl_voxelZDim g,
      gl_nVoxel g X, gl_nVoxel g Y, gl_nVoxel g Z,
      gl_nPlanes g X, gl_nPlanes g Y, gl_nPlanes g Z]"

definition writeSetUp :: "globals \<Rightarrow> 'v stream \<Rightarrow> nat \<times> 'v stream" where
  "writeSetUp g f =
     (case fwrite (map IntCell (setUp g)) f of
        (k, f') \<Rightarrow> (if k = 0 then 0 else sizeof_int * length (setUp g), f'))"

subsection \<open>The generation loop of \<^verbatim>\<open>main\<close> (lines 207 to 233)\<close>

definition nOfSlices_at :: "globals \<Rightarrow> int \<Rightarrow> int" where
  "nOfSlices_at g slice =
     (if gl_nVoxel g Y - slice < OBJ_BUFFER then gl_nVoxel g Y - slice else OBJ_BUFFER)"

text \<open>The \<^verbatim>\<open>switch\<close> on \<^verbatim>\<open>objectType\<close>: which function of \<^verbatim>\<open>voxel.c\<close> is called, and
  with which arguments.\<close>

definition dispatch :: "globals \<Rightarrow> int \<Rightarrow> int \<Rightarrow> int \<Rightarrow> slice_call" where
  "dispatch g objectType nOfSlices slice =
     (if objectType = 1 then (generateCubeWithSphereSlice, nOfSlices, slice, gl_nVoxel g X)
      else if objectType = 2 then
        (generateSphereSlice, nOfSlices, slice, c_div (gl_objectSideLenght g) 2)
      else (generateCubeSlice, nOfSlices, slice, gl_nVoxel g X))"

definition run_call :: "'v voxel_module \<Rightarrow> globals \<Rightarrow> slice_call \<Rightarrow> (nat \<Rightarrow> 'v) \<Rightarrow> (nat \<Rightarrow> 'v)" where
  "run_call V g c buf = (case c of (gen, n, sl, p) \<Rightarrow> V g gen n sl p buf)"

definition chunk_count :: "globals \<Rightarrow> int \<Rightarrow> nat" where
  "chunk_count g nOfSlices = size_t (gl_nVoxel g X * gl_nVoxel g Z * nOfSlices)"

text \<open>One iteration of the loop body: the result is \<open>Inl\<close> when the body calls
  \<^verbatim>\<open>exit(4)\<close>.\<close>

definition chunk :: "'v voxel_module \<Rightarrow> int \<Rightarrow> int \<Rightarrow> 'v state \<Rightarrow> (int \<times> 'v state) + 'v state" where
  "chunk V objectType slice s =
     (let nOfSlices = nOfSlices_at (gl s) slice;
          c = dispatch (gl s) objectType nOfSlices slice;
          grid' = run_call V (gl s) c (grid s);
          w = fwrite (map (\<lambda>i. DoubleCell (grid' i)) [0..<chunk_count (gl s) nOfSlices])
                (filePoiter s);
          s' = s\<lparr> filePoiter := snd w, grid := grid', calls := calls s @ [c] \<rparr>
      in if fst w = 0
         then Inl (4, s'\<lparr> printed := printed s' @ [(Stdout, UnableToWriteOnFile)] \<rparr>)
         else Inr s')"

function generation_loop ::
  "'v voxel_module \<Rightarrow> int \<Rightarrow> int \<Rightarrow> 'v state \<Rightarrow> (int \<times> 'v state) + 'v state" where
  "generation_loop V objectType slice s =
     (if slice < gl_nVoxel (gl s) Y then
        (case chunk V objectType slice s of
           Inl e \<Rightarrow> Inl e
         | Inr s' \<Rightarrow> generation_loop V objectType (slice + OBJ_BUFFER) s')
      else Inr s)"
  by pat_completeness auto
termination
  by (relation "measure (\<lambda>(V, t, slice, s). nat (gl_nVoxel (gl s) Y - slice))")
     (auto simp: OBJ_BUFFER_def chunk_def Let_def split: if_splits)

declare generation_loop.simps [simp del]

subsection \<open>\<^verbatim>\<open>main\<close>\<close>

text \<open>Lines 169 to 172: the parameters recomputed from the pixel count \<open>n\<close>.\<close>

definition set_up_from_n :: "(real \<Rightarrow> real) \<Rightarrow> defaults \<Rightarrow> int \<Rightarrow> globals \<Rightarrow> globals" where
  "set_up_from_n rnd d n g =
     (let g1 = g\<lparr> gl_objectSideLenght :=
                  double_to_int (rnd (real_of_int (int32 (n * gl_voxelXDim g)) *
                    rnd (real_of_int (OBJECT_SIDE_LENGTH d) /
                         real_of_int (int32 (VOXEL_X_DIM d * N_PIXEL_ALONG_SIDE d))))) \<rparr>;
          g2 = g1\<lparr> gl_detectorSideLength := int32 (n * gl_pixelDim g1) \<rparr>;
          g3 = g2\<lparr> gl_distanceObjectDetector :=
                  double_to_int (rnd (3 / 2 * real_of_int (gl_objectSideLenght g2))) \<rparr>
      in g3\<lparr> gl_distanceObjectSource := int32 (6 * gl_objectSideLenght g3) \<rparr>)"

text \<open>Lines 175 to 181.\<close>

definition compute_counts :: "globals \<Rightarrow> globals" where
  "compute_counts g =
     (let nv = (\<lambda>i. case i of
                  X \<Rightarrow> c_div (gl_objectSideLenght g) (gl_voxelXDim g)
                | Y \<Rightarrow> c_div (gl_objectSideLenght g) (gl_voxelYDim g)
                | Z \<Rightarrow> c_div (gl_objectSideLenght g) (gl_voxelZDim g));
          np = (\<lambda>i. case i of
                  X \<Rightarrow> c_div (gl_objectSideLenght g) (gl_voxelXDim g) + 1
                | Y \<Rightarrow> c_div (gl_objectSideLenght g) (gl_voxelYDim g) + 1
                | Z \<Rightarrow> c_div (gl_objectSideLenght g) (gl_voxelZDim g) + 1)
      in g\<lparr> gl_nVoxel := nv, gl_nPlanes := np \<rparr>)"

definition parse_objectType :: "string list \<Rightarrow> int" where
  "parse_objectType argv = (if length argv > 2 then atoi (argv ! 2) else 0)"

text \<open>Lines 160 to 181: the global variables after the arguments are read.\<close>

definition resolve :: "(real \<Rightarrow> real) \<Rightarrow> defaults \<Rightarrow> string list \<Rightarrow> globals" where
  "resolve rnd d argv =
     compute_counts
       (if length argv > 3 then set_up_from_n rnd d (atoi (argv ! 3)) (initial_globals d)
        else initial_globals d)"

definition summary :: "globals \<Rightarrow> nat \<Rightarrow> message" where
  "summary g headerLength =
     OutputFileDetails
       (nat ((int sizeof_double * gl_nVoxel g X * gl_nVoxel g Z * gl_nVoxel g Y) mod 2 ^ 64))
       (sizeof_double * 8) (gl_nVoxel g X) (gl_nVoxel g Z) headerLength (gl_nVoxel g Y)"

definition initial_state :: "defaults \<Rightarrow> (nat \<Rightarrow> 'v) \<Rightarrow> 'v state" where
  "initial_state d garbage =
     \<lparr> gl = initial_globals d, filePoiter = \<lparr> content = [], room = [] \<rparr>,
       grid = garbage, calls = [], printed = [] \<rparr>"

text \<open>\<open>main rnd d raw V e garbage argv\<close>: \<open>raw\<close> says whether the program was compiled
  with \<^verbatim>\<open>-DRAW\<close>, \<open>garbage\<close> is the content of the buffer \<^verbatim>\<open>malloc\<close> returns, and
  \<open>argv\<close> is the argument vector with the program name first. The result is the exit
  status and the final state.\<close>

definition main ::
  "(real \<Rightarrow> real) \<Rightarrow> defaults \<Rightarrow> bool \<Rightarrow> 'v voxel_module \<Rightarrow> env \<Rightarrow> (nat \<Rightarrow> 'v) \<Rightarrow> string list
     \<Rightarrow> int \<times> 'v state" where
  "main rnd d raw V e garbage argv =
     (let s0 = initial_state d garbage in
      if length argv > 4 \<or> length argv < 2 then
        (EXIT_FAILURE,
         s0\<lparr> printed := [(Stderr, Usage (case argv of [] \<Rightarrow> [] | a # _ \<Rightarrow> a))] \<rparr>)
      else
        let objectType = parse_objectType argv;
            s1 = s0\<lparr> gl := resolve rnd d argv \<rparr>
        in if \<not> fopen_ok e then
             (2, s1\<lparr> printed := [(Stdout, UnableToOpenFile)] \<rparr>)
           else
             let s2 = s1\<lparr> filePoiter := \<lparr> content = [], room = faults e \<rparr> \<rparr>;
                 h = (if raw then (0, filePoiter s2) else writeSetUp (gl s2) (filePoiter s2));
                 s3 = s2\<lparr> filePoiter := snd h \<rparr>
             in if \<not> raw \<and> fst h = 0 then
                  (3, s3\<lparr> printed := [(Stdout, UnableToWriteOnFile)] \<rparr>)
                else
                  (case generation_loop V objectType 0 s3 of
                     Inl e \<Rightarrow> e
                   | Inr s4 \<Rightarrow>
                       (0, s4\<lparr> printed := printed s4 @ [(Stdout, summary (gl s4) (fst h))] \<rparr>)))"

text \<open>The header length and the state of \<open>main\<close> when it reaches the loop (line 207), for
  an argument vector of two to four entries and a file that opens.\<close>

definition before_loop ::
  "(real \<Rightarrow> real) \<Rightarrow> defaults \<Rightarrow> bool \<Rightarrow> env \<Rightarrow> (nat \<Rightarrow> 'v) \<Rightarrow> string list \<Rightarrow> nat \<times> 'v state" where
  "before_loop rnd d raw e garbage argv =
     (let s2 = (initial_state d garbage)
                 \<lparr> gl := resolve rnd d argv, filePoiter := \<lparr> content = [], room = faults e \<rparr> \<rparr>;
          h = (if raw then (0, filePoiter s2) else writeSetUp (gl s2) (filePoiter s2))
      in (fst h, s2\<lparr> filePoiter := snd h \<rparr>))"

text \<open>The state a result of the loop carries, whichever way the loop was left.\<close>

definition final_of :: "(int \<times> 'v state) + 'v state \<Rightarrow> 'v state" where
  "final_of r = (case r of Inl (st, s) \<Rightarrow> s | Inr s \<Rightarrow> s)"

text \<open>The selector in the words of the program's header comment: \<open>1\<close> is the cube with
  a spherical cavity, \<open>2\<close> the solid sphere, and the solid cube is the default; and the
  fourth argument each function is given (\<open>objectSideLength / 2\<close> for the sphere,
  \<open>nVoxel[X]\<close> for the other two).\<close>

definition selected_generator :: "int \<Rightarrow> generator" where
  "selected_generator objectType =
     (if objectType = 1 then generateCubeWithSphereSlice
      else if objectType = 2 then generateSphereSlice
      else generateCubeSlice)"

definition generator_argument :: "globals \<Rightarrow> int \<Rightarrow> int" where
  "generator_argument g objectType =
     (if objectType = 2 then c_div (gl_objectSideLenght g) 2 else gl_nVoxel g X)"

text \<open>What the chunked writer is to emit, in the words of the spec (section 4.3): the
  chunks start at the layers \<open>slice, slice + 100, \<dots>\<close> below \<open>nVoxel[Y]\<close>; the chunk that
  starts at layer \<open>sl\<close> has \<open>min 100 (nVoxel[Y] - sl)\<close> layers, and is the first
  \<open>nVoxel[X] * nVoxel[Z]\<close> times that many elements of the buffer as the selected
  function of the classifier \<open>V\<close> leaves it when called for these layers; the chunks
  follow each other in the order of their first layers.\<close>

definition chunk_starts :: "int \<Rightarrow> int \<Rightarrow> int list" where
  "chunk_starts slice nY =
     map (\<lambda>k. slice + OBJ_BUFFER * int k)
       [0..<nat ((nY - slice + OBJ_BUFFER - 1) div OBJ_BUFFER)]"

fun chunks_output :: "'v voxel_module \<Rightarrow> globals \<Rightarrow> int \<Rightarrow> int list \<Rightarrow> (nat \<Rightarrow> 'v) \<Rightarrow> 'v list" where
  "chunks_output V g t [] buf = []"
| "chunks_output V g t (sl # rest) buf =
     map (V g (selected_generator t) (min OBJ_BUFFER (gl_nVoxel g Y - sl)) sl
            (generator_argument g t) buf)
       [0..<nat (gl_nVoxel g X * gl_nVoxel g Z * min OBJ_BUFFER (gl_nVoxel g Y - sl))]
     @ chunks_output V g t rest
         (V g (selected_generator t) (min OBJ_BUFFER (gl_nVoxel g Y - sl)) sl
            (generator_argument g t) buf)"


text \<open>The layers a call into \<^verbatim>\<open>voxel.c\<close> is asked for: \<open>nOfSlices\<close> layers from
  \<open>slice\<close> on.\<close>

definition layers_of :: "slice_call \<Rightarrow> nat list" where
  "layers_of c = (case c of (gen, n, sl, p) \<Rightarrow> [nat sl..<nat (sl + n)])"

definition data_cells :: "'v cell list \<Rightarrow> 'v list" where
  "data_cells cs = concat (map (\<lambda>c. case c of IntCell _ \<Rightarrow> [] | DoubleCell v \<Rightarrow> [v]) cs)"

subsection \<open>The shape classifier of \<^verbatim>\<open>voxel.c\<close>\<close>

datatype shape = SolidCube | SolidSphere | CubeWithSphericalCavity

text \<open>The shape each entry point of \<^verbatim>\<open>voxel.c\<close> generates, as the header comment of
  \<^verbatim>\<open>inputgeneration.c\<close> names them: 1 is the solid cube with a spherical cavity, 2 the
  solid sphere, 3 the solid cube.\<close>

definition shape_of :: "generator \<Rightarrow> shape" where
  "shape_of gen =
     (case gen of
        generateCubeWithSphereSlice \<Rightarrow> CubeWithSphericalCavity
      | generateSphereSlice \<Rightarrow> SolidSphere
      | generateCubeSlice \<Rightarrow> SolidCube)"

text \<open>Modelled from the spec: the membership test of \<^verbatim>\<open>voxel.c\<close>, which is not among
  the sources. A point at offset \<open>(dx, dy, dz)\<close> from the centre of a sphere is inside when
  \<open>dx*dx + dy*dy + dz*dz \<le> radius*radius\<close>; a point on the surface is inside.\<close>

definition inside_sphere :: "real \<Rightarrow> real \<Rightarrow> real \<Rightarrow> real \<Rightarrow> bool" where
  "inside_sphere dx dy dz radius = (dx * dx + dy * dy + dz * dz \<le> radius * radius)"

text \<open>Modelled from the spec: the offset, in voxels, of the centre of the voxel with index
  \<open>k\<close> along axis \<open>i\<close> from the geometric centre of the volume (\<^verbatim>\<open>voxel.c\<close> is not among
  the sources).\<close>

definition centre_offset :: "globals \<Rightarrow> axis \<Rightarrow> int \<Rightarrow> real" where
  "centre_offset g i k = real_of_int k + 1 / 2 - real_of_int (gl_nVoxel g i) / 2"

text \<open>Modelled from the spec: the density of the voxel \<open>(x, y, z)\<close> for each shape variant
  (\<^verbatim>\<open>voxel.c\<close> is not among the sources). The solid cube is \<open>1\<close> everywhere; the solid
  sphere is \<open>1\<close> inside the sphere of radius \<open>objectSideLength / 2\<close> about the centre of
  the volume, in physical units; the cube with a cavity is \<open>0\<close> inside a concentric sphere
  whose radius is the fraction \<open>cf\<close> of \<open>nVoxel[X]\<close>, in voxels. The spec leaves the
  fraction open, so it is a parameter.\<close>

definition density :: "real \<Rightarrow> globals \<Rightarrow> shape \<Rightarrow> int \<Rightarrow> int \<Rightarrow> int \<Rightarrow> real" where
  "density cf g sh x y z =
     (case sh of
        SolidCube \<Rightarrow> 1
      | SolidSphere \<Rightarrow>
          if inside_sphere
               (centre_offset g X x * real_of_int (gl_voxelXDim g))
               (centre_offset g Y y * real_of_int (gl_voxelYDim g))
               (centre_offset g Z z * real_of_int (gl_voxelZDim g))
               (real_of_int (gl_objectSideLenght g) / 2)
          then 1 else 0
      | CubeWithSphericalCavity \<Rightarrow>
          if inside_sphere (centre_offset g X x) (centre_offset g Y y) (centre_offset g Z z)
               (cf * real_of_int (gl_nVoxel g X))
          then 0 else 1)"

text \<open>Modelled from the spec: the density stored at position \<open>j\<close> of the serialised grid
  (\<^verbatim>\<open>voxel.c\<close> is not among the sources): layers from the lowest \<open>y\<close> up, within a
  layer \<open>x\<close> varies fastest, then \<open>z\<close>.\<close>

definition voxel_at :: "real \<Rightarrow> globals \<Rightarrow> shape \<Rightarrow> nat \<Rightarrow> real" where
  "voxel_at cf g sh j =
     (let area = nat (gl_nVoxel g X * gl_nVoxel g Z);
          w = j mod area
      in density cf g sh (int (w mod nat (gl_nVoxel g X))) (int (j div area))
           (int (w div nat (gl_nVoxel g X))))"

text \<open>Modelled from the spec: the contract of the shape classifier (\<^verbatim>\<open>voxel.c\<close> is not
  among the sources). Given a shape and the layer range \<open>[yStart, yStart + count)\<close> it
  fills the first \<open>nVoxel[X] * nVoxel[Z] * count\<close> elements of the buffer with the
  densities of those layers in serialisation order, and writes nothing else.\<close>

definition classify ::
  "real \<Rightarrow> globals \<Rightarrow> shape \<Rightarrow> int \<Rightarrow> int \<Rightarrow> (nat \<Rightarrow> real) \<Rightarrow> (nat \<Rightarrow> real)" where
  "classify cf g sh yStart count buf =
     (\<lambda>i. if int i < gl_nVoxel g X * gl_nVoxel g Z * count
          then voxel_at cf g sh (nat (gl_nVoxel g X * gl_nVoxel g Z * yStart) + i)
          else buf i)"

text \<open>Modelled from the spec: the three entry points of \<^verbatim>\<open>voxel.c\<close> as the classifier
  of their shape; the fourth argument does not appear in the spec's contract.\<close>

definition spec_voxel :: "real \<Rightarrow> real voxel_module" where
  "spec_voxel cf g gen nOfSlices slice p buf = classify cf g (shape_of gen) slice nOfSlices buf"


text \<open>Modelled from the spec: classifying the whole grid in a single pass, that is one
  call of the classifier for the layers \<open>[0, nVoxel[Y])\<close> (\<^verbatim>\<open>voxel.c\<close> is not among the
  sources).\<close>

definition whole_grid :: "real \<Rightarrow> globals \<Rightarrow> shape \<Rightarrow> real list" where
  "whole_grid cf g sh =
     map (classify cf g sh 0 (gl_nVoxel g Y) (\<lambda>i. 0))
       [0..<nat (gl_nVoxel g X * gl_nVoxel g Z * gl_nVoxel g Y)]"

text \<open>Modelled from the spec: the chunked streaming writer of section 4.3 for a chunk size
  \<open>K\<close> (the source fixes \<open>K = 100\<close>). Per iteration it classifies
  \<open>min K (nVoxel[Y] - slice)\<close> layers from \<open>slice\<close> on into the buffer, appends them and
  advances \<open>slice\<close> by that number. A chunk size that is not positive never advances; the
  definition stops there.\<close>

function chunked_generation ::
  "real \<Rightarrow> globals \<Rightarrow> shape \<Rightarrow> int \<Rightarrow> int \<Rightarrow> (nat \<Rightarrow> real) \<Rightarrow> real list" where
  "chunked_generation cf g sh K slice buf =
     (if slice < gl_nVoxel g Y \<and> 0 < K then
        map (classify cf g sh slice (min K (gl_nVoxel g Y - slice)) buf)
          [0..<nat (gl_nVoxel g X * gl_nVoxel g Z * min K (gl_nVoxel g Y - slice))]
        @ chunked_generation cf g sh K (slice + min K (gl_nVoxel g Y - slice))
            (classify cf g sh slice (min K (gl_nVoxel g Y - slice)) buf)
      else [])"
  by pat_completeness auto
termination
  by (relation "measure (\<lambda>(cf, g, sh, K, slice, buf). nat (gl_nVoxel g Y - slice))") auto

declare chunked_generation.simps [simp del]

subsection \<open>Concrete configurations\<close>

text \<open>A small configuration: a cube of side 300 with voxels of side 100, so a grid of
  3 by 3 by 3 voxels; six pixels along the detector side. The quotient
  \<open>300 / (100 * 6)\<close> is a power of two, so no operation on it rounds.\<close>

definition small_defaults :: defaults where
  "small_defaults =
     \<lparr> PIXEL_DIM = 100, ANGULAR_TRAJECTORY = 90, POSITIONS_ANGULAR_DISTANCE = 15,
       OBJECT_SIDE_LENGTH = 300, DETECTOR_SIDE_LENGTH = 600,
       DISTANCE_OBJECT_DETECTOR = 450, DISTANCE_OBJECT_SOURCE = 1800,
       VOXEL_X_DIM = 100, VOXEL_Y_DIM = 100, VOXEL_Z_DIM = 100,
       N_VOXEL = (\<lambda>i. 3), N_PLANES = (\<lambda>i. 4) \<rparr>"

text \<open>A column: one voxel across, 250 layers high.\<close>

definition column_defaults :: defaults where
  "column_defaults =
     small_defaults\<lparr> OBJECT_SIDE_LENGTH := 250, VOXEL_X_DIM := 250, VOXEL_Y_DIM := 1,
       VOXEL_Z_DIM := 250, N_VOXEL := (\<lambda>i. case i of Y \<Rightarrow> 250 | _ \<Rightarrow> 1),
       N_PLANES := (\<lambda>i. case i of Y \<Rightarrow> 251 | _ \<Rightarrow> 2) \<rparr>"

text \<open>A configuration whose voxels are wider than the object: no voxel along \<open>x\<close>, 250
  layers along \<open>y\<close>.\<close>

definition flat_defaults :: defaults where
  "flat_defaults =
     column_defaults\<lparr> VOXEL_X_DIM := 500,
       N_VOXEL := (\<lambda>i. case i of X \<Rightarrow> 0 | Y \<Rightarrow> 250 | Z \<Rightarrow> 1),
       N_PLANES := (\<lambda>i. case i of X \<Rightarrow> 1 | Y \<Rightarrow> 251 | Z \<Rightarrow> 2) \<rparr>"

text \<open>The rounding of a run in which every \<^verbatim>\<open>double\<close> operation is exact, as it is
  for the configurations above; a file system on which nothing fails; a buffer of
  zeros.\<close>

definition exact :: "real \<Rightarrow> real" where
  "exact x = x"

definition no_faults :: env where
  "no_faults = \<lparr> fopen_ok = True, faults = [] \<rparr>"

definition zeros :: "nat \<Rightarrow> real" where
  "zeros i = 0"

section \<open>Properties\<close>

subsection \<open>The stream and one iteration of the loop\<close>

text \<open>Two adjacent index ranges make one.\<close>

lemma upt_append_le:
  assumes "i \<le> j" and "j \<le> k"
  shows "[i..<j] @ [j..<k] = [i..<k]"
proof -
  from assms(2) obtain q where k: "k = j + q"
    using nat_le_iff_add by blast
  show ?thesis
    unfolding k by (rule upt_add_eq_append [OF assms(1), symmetric])
qed

lemma set_tl_None: "set r \<subseteq> {None} \<Longrightarrow> set (tl r) \<subseteq> {None}"
  by (cases r) auto

lemma fwrite_complete:
  "set (room f) \<subseteq> {None} \<Longrightarrow>
   fwrite cells f = (length cells, \<lparr> content = content f @ cells, room = tl (room f) \<rparr>)"
  by (cases "room f") (auto simp: fwrite_def)

lemma fwrite_content:
  "content (snd (fwrite cells f)) = content f @ take (fst (fwrite cells f)) cells"
  by (simp add: fwrite_def Let_def)

lemma fwrite_room: "room (snd (fwrite cells f)) = tl (room f)"
  by (simp add: fwrite_def Let_def)

lemma take_map_DoubleCell: "\<exists>ds. take k (map (\<lambda>i. DoubleCell (b i)) js) = map DoubleCell ds"
  by (rule exI [of _ "map b (take k js)"]) (simp add: take_map)

lemma chunk_Inr:
  assumes "chunk V t slice s = Inr s'"
  shows "gl s' = gl s" and "printed s' = printed s"
    and "calls s' = calls s @ [dispatch (gl s) t (nOfSlices_at (gl s) slice) slice]"
    and "\<exists>ds. content (filePoiter s') = content (filePoiter s) @ map DoubleCell ds"
    and "room (filePoiter s') = tl (room (filePoiter s))"
  using assms take_map_DoubleCell
  by (auto simp: chunk_def Let_def fwrite_content fwrite_room split: if_splits)

lemma chunk_Inl:
  assumes "chunk V t slice s = Inl (st, s')"
  shows "st = 4" and "gl s' = gl s"
    and "printed s' = printed s @ [(Stdout, UnableToWriteOnFile)]"
    and "calls s' = calls s @ [dispatch (gl s) t (nOfSlices_at (gl s) slice) slice]"
    and "content (filePoiter s') = content (filePoiter s)"
  using assms
  by (auto simp: chunk_def Let_def fwrite_content split: if_splits)

text \<open>The function the \<^verbatim>\<open>switch\<close> selects depends on \<open>objectType\<close> only.\<close>

lemma fst_dispatch:
  "fst (dispatch g t n sl) =
     (if t = 1 then generateCubeWithSphereSlice
      else if t = 2 then generateSphereSlice else generateCubeSlice)"
  by (simp add: dispatch_def)

subsection \<open>What every run of the loop preserves\<close>

text \<open>However the loop ends, the global variables are unchanged, the file has grown by
  grid values only, every call went to the selected function, and a message was printed
  exactly when the loop was left through \<^verbatim>\<open>exit(4)\<close>.\<close>

lemma loop_frame:
  "gl (final_of (generation_loop V t slice s)) = gl s \<and>
   (\<exists>ds. content (filePoiter (final_of (generation_loop V t slice s))) =
      content (filePoiter s) @ map DoubleCell ds) \<and>
   (\<exists>cs. calls (final_of (generation_loop V t slice s)) = calls s @ cs \<and>
      (\<forall>c \<in> set cs. fst c = fst (dispatch (gl s) t 0 0))) \<and>
   (case generation_loop V t slice s of
      Inl (st, s') \<Rightarrow> st = 4 \<and> printed s' = printed s @ [(Stdout, UnableToWriteOnFile)]
    | Inr s' \<Rightarrow> printed s' = printed s)"
proof (induction V t slice s rule: generation_loop.induct)
  case (1 V t slice s)
  show ?case
  proof (cases "slice < gl_nVoxel (gl s) Y")
    case False
    then show ?thesis by (simp add: final_of_def generation_loop.simps [of V t slice s])
  next
    case True
    show ?thesis
    proof (cases "chunk V t slice s")
      case (Inl e)
      obtain st s' where e: "e = (st, s')" by (cases e)
      from chunk_Inl [OF Inl [unfolded e]] True Inl e show ?thesis
        by (simp add: final_of_def fst_dispatch generation_loop.simps [of V t slice s])
    next
      case (Inr s')
      note c = chunk_Inr [OF Inr]
      note IH = "1.IH" [OF True Inr]
      have eq: "generation_loop V t slice s = generation_loop V t (slice + OBJ_BUFFER) s'"
        using True Inr by (simp add: generation_loop.simps [of V t slice s])
      from c(4) obtain ds1 where ds1: "content (filePoiter s') = content (filePoiter s) @ map DoubleCell ds1" ..
      from IH obtain ds2 where ds2: "content (filePoiter (final_of (generation_loop V t (slice + OBJ_BUFFER) s'))) =
         content (filePoiter s') @ map DoubleCell ds2" by blast
      from IH obtain cs where cs: "calls (final_of (generation_loop V t (slice + OBJ_BUFFER) s')) = calls s' @ cs"
        "\<forall>c \<in> set cs. fst c = fst (dispatch (gl s') t 0 0)" by blast
      have A: "gl (final_of (generation_loop V t slice s)) = gl s"
        using IH c(1) eq by simp
      have B: "\<exists>ds. content (filePoiter (final_of (generation_loop V t slice s))) =
          content (filePoiter s) @ map DoubleCell ds"
        unfolding eq ds2 ds1 by (rule exI [of _ "ds1 @ ds2"]) simp
      have C: "\<exists>cs. calls (final_of (generation_loop V t slice s)) = calls s @ cs \<and>
          (\<forall>c \<in> set cs. fst c = fst (dispatch (gl s) t 0 0))"
        unfolding eq cs(1) c(3)
        by (rule exI [of _ "dispatch (gl s) t (nOfSlices_at (gl s) slice) slice # cs"])
           (use cs(2) in \<open>simp add: fst_dispatch\<close>)
      have D: "(case generation_loop V t slice s of
          Inl (st, s') \<Rightarrow> st = 4 \<and> printed s' = printed s @ [(Stdout, UnableToWriteOnFile)]
        | Inr s' \<Rightarrow> printed s' = printed s)"
        unfolding eq using IH c(2) by (auto split: sum.splits)
      from A B C D show ?thesis by blast
    qed
  qed
qed

subsection \<open>The paths through \<^verbatim>\<open>main\<close>\<close>

lemma main_usage:
  "length argv > 4 \<or> length argv < 2 \<Longrightarrow>
   main rnd d raw V e garbage argv =
     (EXIT_FAILURE,
      (initial_state d garbage)\<lparr> printed := [(Stderr, Usage (case argv of [] \<Rightarrow> [] | a # _ \<Rightarrow> a))] \<rparr>)"
  by (auto simp: main_def Let_def)

lemma main_open_failed:
  "2 \<le> length argv \<Longrightarrow> length argv \<le> 4 \<Longrightarrow> \<not> fopen_ok e \<Longrightarrow>
   main rnd d raw V e garbage argv =
     (2, (initial_state d garbage)\<lparr> gl := resolve rnd d argv, printed := [(Stdout, UnableToOpenFile)] \<rparr>)"
  by (auto simp: main_def Let_def)

lemma main_header_failed:
  "2 \<le> length argv \<Longrightarrow> length argv \<le> 4 \<Longrightarrow> fopen_ok e \<Longrightarrow> \<not> raw \<Longrightarrow>
   fst (before_loop rnd d raw e garbage argv) = 0 \<Longrightarrow>
   main rnd d raw V e garbage argv =
     (3, (snd (before_loop rnd d raw e garbage argv))\<lparr> printed := [(Stdout, UnableToWriteOnFile)] \<rparr>)"
  by (auto simp: main_def before_loop_def Let_def)

lemma main_loop:
  "2 \<le> length argv \<Longrightarrow> length argv \<le> 4 \<Longrightarrow> fopen_ok e \<Longrightarrow>
   raw \<or> fst (before_loop rnd d raw e garbage argv) \<noteq> 0 \<Longrightarrow>
   main rnd d raw V e garbage argv =
     (case generation_loop V (parse_objectType argv) 0 (snd (before_loop rnd d raw e garbage argv)) of
        Inl x \<Rightarrow> x
      | Inr s4 \<Rightarrow>
          (0, s4\<lparr> printed := printed s4 @
                 [(Stdout, summary (gl s4) (fst (before_loop rnd d raw e garbage argv)))] \<rparr>))"
  by (auto simp: main_def before_loop_def Let_def split: sum.splits)

lemma before_loop_gl: "gl (snd (before_loop rnd d raw e garbage argv)) = resolve rnd d argv"
  by (simp add: before_loop_def Let_def)

lemma before_loop_printed: "printed (snd (before_loop rnd d raw e garbage argv)) = []"
  by (simp add: before_loop_def Let_def initial_state_def)

lemma before_loop_calls: "calls (snd (before_loop rnd d raw e garbage argv)) = []"
  by (simp add: before_loop_def Let_def initial_state_def)

lemma main_final:
  assumes "2 \<le> length argv" "length argv \<le> 4" "fopen_ok e"
    "raw \<or> fst (before_loop rnd d raw e garbage argv) \<noteq> 0"
  shows "gl (snd (main rnd d raw V e garbage argv)) = resolve rnd d argv"
    and "\<exists>ds. content (filePoiter (snd (main rnd d raw V e garbage argv))) =
           content (filePoiter (snd (before_loop rnd d raw e garbage argv))) @ map DoubleCell ds"
    and "\<forall>c \<in> set (calls (snd (main rnd d raw V e garbage argv))).
           fst c = fst (dispatch (resolve rnd d argv) (parse_objectType argv) 0 0)"
    and "fst (main rnd d raw V e garbage argv) = 0 \<or> fst (main rnd d raw V e garbage argv) = 4"
    and "fst (main rnd d raw V e garbage argv) = 4 \<Longrightarrow>
           printed (snd (main rnd d raw V e garbage argv)) = [(Stdout, UnableToWriteOnFile)]"
    and "fst (main rnd d raw V e garbage argv) = 0 \<Longrightarrow>
           printed (snd (main rnd d raw V e garbage argv)) =
             [(Stdout, summary (resolve rnd d argv) (fst (before_loop rnd d raw e garbage argv)))]"
proof -
  let ?s3 = "snd (before_loop rnd d raw e garbage argv)"
  let ?r = "generation_loop V (parse_objectType argv) 0 ?s3"
  note F = loop_frame [of V "parse_objectType argv" 0 ?s3]
  note M = main_loop [OF assms, of V]
  show "gl (snd (main rnd d raw V e garbage argv)) = resolve rnd d argv"
    using F unfolding M by (auto simp: final_of_def before_loop_gl split: sum.splits)
  show "\<exists>ds. content (filePoiter (snd (main rnd d raw V e garbage argv))) =
           content (filePoiter ?s3) @ map DoubleCell ds"
    using F unfolding M by (auto simp: final_of_def split: sum.splits)
  show "\<forall>c \<in> set (calls (snd (main rnd d raw V e garbage argv))).
           fst c = fst (dispatch (resolve rnd d argv) (parse_objectType argv) 0 0)"
    using F unfolding M by (auto simp: final_of_def before_loop_gl before_loop_calls split: sum.splits)
  show "fst (main rnd d raw V e garbage argv) = 0 \<or> fst (main rnd d raw V e garbage argv) = 4"
    using F unfolding M by (auto simp: final_of_def split: sum.splits)
  show "printed (snd (main rnd d raw V e garbage argv)) = [(Stdout, UnableToWriteOnFile)]"
    if "fst (main rnd d raw V e garbage argv) = 4"
    using F that unfolding M by (auto simp: final_of_def before_loop_printed split: sum.splits)
  show "printed (snd (main rnd d raw V e garbage argv)) =
             [(Stdout, summary (resolve rnd d argv) (fst (before_loop rnd d raw e garbage argv)))]"
    if "fst (main rnd d raw V e garbage argv) = 0"
    using F that unfolding M by (auto simp: final_of_def before_loop_printed before_loop_gl split: sum.splits)
qed

lemma main_gl:
  assumes "2 \<le> length argv" "length argv \<le> 4"
  shows "gl (snd (main rnd d raw V e garbage argv)) = resolve rnd d argv"
proof (cases "fopen_ok e")
  case False
  with assms show ?thesis by (simp add: main_open_failed)
next
  case True
  show ?thesis
  proof (cases "raw \<or> fst (before_loop rnd d raw e garbage argv) \<noteq> 0")
    case True
    from main_final(1) [OF assms \<open>fopen_ok e\<close> True] show ?thesis .
  next
    case False
    then have "\<not> raw" and "fst (before_loop rnd d raw e garbage argv) = 0" by auto
    from main_header_failed [OF assms \<open>fopen_ok e\<close> this, of V] show ?thesis
      by (simp add: before_loop_gl)
  qed
qed


subsection \<open>The resolved grid parameters\<close>

lemma compute_counts_invariant:
  "gl_nVoxel (compute_counts g) i = c_div (gl_objectSideLenght (compute_counts g)) (gl_voxelDim (compute_counts g) i) \<and>
   gl_nPlanes (compute_counts g) i = gl_nVoxel (compute_counts g) i + 1"
  by (cases i) (simp_all add: compute_counts_def gl_voxelDim_def Let_def)

text \<open>
  Claim C6. After parameter resolution, whether or not the pixel count was supplied,
  \<open>nVoxel[i] = objectSideLength / voxelDim[i]\<close> (C integer division) and
  \<open>nPlanes[i] = nVoxel[i] + 1\<close> hold on all three axes, and the global variables at the
  end of every run that got past the argument check are the resolved ones: neither the
  header writer nor the generation loop changes them.
\<close>

theorem counts_invariant_after_resolution:
  assumes "2 \<le> length argv" and "length argv \<le> 4"
    and "main rnd d raw V e garbage argv = (st, s)"
  shows "gl s = resolve rnd d argv \<and>
    (\<forall>i. gl_nVoxel (resolve rnd d argv) i =
           c_div (gl_objectSideLenght (resolve rnd d argv)) (gl_voxelDim (resolve rnd d argv) i)) \<and>
    (\<forall>i. gl_nPlanes (resolve rnd d argv) i = gl_nVoxel (resolve rnd d argv) i + 1)"
proof -
  have "gl s = resolve rnd d argv"
    using main_gl [OF assms(1,2), of rnd d raw V e garbage] assms(3) by simp
  moreover have "\<forall>i. gl_nVoxel (resolve rnd d argv) i =
      c_div (gl_objectSideLenght (resolve rnd d argv)) (gl_voxelDim (resolve rnd d argv) i)"
    unfolding resolve_def using compute_counts_invariant by blast
  moreover have "\<forall>i. gl_nPlanes (resolve rnd d argv) i = gl_nVoxel (resolve rnd d argv) i + 1"
    unfolding resolve_def using compute_counts_invariant by blast
  ultimately show ?thesis by blast
qed

lemma resolve_small_4: "gl_objectSideLenght (resolve exact small_defaults [''prog'', ''out.dat'', ''2'', ''4'']) = 200"
  by (simp add: resolve_def set_up_from_n_def compute_counts_def initial_globals_def small_defaults_def
     exact_def atoi_def leading_number_def isspace_def isdigit_def N_PIXEL_ALONG_SIDE_def c_div_def
     c_trunc_def int32_def double_to_int_def Let_def)

theorem counts_invariant_witness:
  "gl (snd (main exact small_defaults False (spec_voxel (1 / 4)) no_faults zeros
        [''prog'', ''out.dat'', ''2'', ''4''])) =
     resolve exact small_defaults [''prog'', ''out.dat'', ''2'', ''4''] \<and>
   gl_nVoxel (resolve exact small_defaults [''prog'', ''out.dat'', ''2'', ''4'']) Y = 2 \<and>
   gl_nPlanes (resolve exact small_defaults [''prog'', ''out.dat'', ''2'', ''4'']) Y = 3"
  using counts_invariant_after_resolution [of "[''prog'', ''out.dat'', ''2'', ''4'']" exact small_defaults
      False "spec_voxel (1 / 4)" no_faults zeros
      "fst (main exact small_defaults False (spec_voxel (1 / 4)) no_faults zeros [''prog'', ''out.dat'', ''2'', ''4''])"
      "snd (main exact small_defaults False (spec_voxel (1 / 4)) no_faults zeros [''prog'', ''out.dat'', ''2'', ''4''])"]
  by (simp add: resolve_small_4 gl_voxelDim_def c_div_def)
     (simp add: resolve_def set_up_from_n_def compute_counts_def initial_globals_def small_defaults_def Let_def)

subsection \<open>The shape selector\<close>

lemma main_calls:
  "\<forall>c \<in> set (calls (snd (main rnd d raw V e garbage argv))).
     fst c = fst (dispatch (resolve rnd d argv) (parse_objectType argv) 0 0)"
proof (cases "2 \<le> length argv \<and> length argv \<le> 4")
  case False
  then have "length argv > 4 \<or> length argv < 2" by auto
  then show ?thesis by (simp add: main_usage initial_state_def)
next
  case argc: True
  show ?thesis
  proof (cases "fopen_ok e")
    case False
    with argc show ?thesis by (simp add: main_open_failed initial_state_def)
  next
    case True
    show ?thesis
    proof (cases "raw \<or> fst (before_loop rnd d raw e garbage argv) \<noteq> 0")
      case True
      from argc have a: "2 \<le> length argv" "length argv \<le> 4" by auto
      from main_final(3) [OF a \<open>fopen_ok e\<close> True] show ?thesis .
    next
      case False
      then have "\<not> raw" and "fst (before_loop rnd d raw e garbage argv) = 0" by auto
      from argc have a: "2 \<le> length argv" "length argv \<le> 4" by auto
      from main_header_failed [OF a \<open>fopen_ok e\<close> \<open>\<not> raw\<close> \<open>fst (before_loop rnd d raw e garbage argv) = 0\<close>, of V]
      show ?thesis by (simp add: before_loop_calls)
    qed
  qed
qed

lemma digits_value_no_digit: "\<forall>c \<in> set cs. \<not> isdigit c \<Longrightarrow> digits_value a cs = a"
  by (cases cs) auto

lemma atoi_no_digit:
  assumes "\<forall>c \<in> set str. \<not> isdigit c"
  shows "atoi str = 0"
proof (cases "dropWhile isspace str")
  case Nil
  show ?thesis unfolding atoi_def leading_number_def Nil by (simp add: int32_def)
next
  case (Cons c cs)
  have "set (dropWhile isspace str) \<subseteq> set str"
    by (auto dest: set_dropWhileD)
  with assms Cons have "\<forall>x \<in> set (c # cs). \<not> isdigit x" by auto
  then have "digits_value 0 cs = 0" and "digits_value 0 (c # cs) = 0"
    by (simp_all add: digits_value_no_digit)
  with Cons show ?thesis
    by (simp add: atoi_def leading_number_def int32_def del: digits_value.simps)
qed

lemmas atoi_eval = atoi_def leading_number_def isspace_def isdigit_def int32_def

lemmas run_eval =
  main_def Let_def initial_state_def resolve_def set_up_from_n_def compute_counts_def
  initial_globals_def parse_objectType_def atoi_eval N_PIXEL_ALONG_SIDE_def c_div_def
  c_trunc_def double_to_int_def exact_def EXIT_FAILURE_def writeSetUp_def setUp_def fwrite_def sizeof_int_def
  sizeof_double_def summary_def generation_loop.simps chunk_def nOfSlices_at_def
  OBJ_BUFFER_def dispatch_def run_call_def chunk_count_def size_t_def no_faults_def
  small_defaults_def


subsection \<open>Failures\<close>

lemma before_loop_header_fst:
  fixes garbage :: "nat \<Rightarrow> 'v"
  shows "fst (before_loop rnd d raw e garbage argv) =
     (if raw then 0
      else fst (writeSetUp (resolve rnd d argv) (\<lparr> content = [], room = faults e \<rparr> :: 'v stream)))"
  by (simp add: before_loop_def Let_def)

lemma chunk_exit:
  assumes "fst (fwrite (map (\<lambda>i. DoubleCell
              (run_call V (gl s) (dispatch (gl s) t (nOfSlices_at (gl s) slice) slice) (grid s) i))
              [0..<chunk_count (gl s) (nOfSlices_at (gl s) slice)]) (filePoiter s)) = 0"
  shows "\<exists>s'. chunk V t slice s = Inl (4, s')"
  using assms by (simp add: chunk_def Let_def)

text \<open>A chunk write of which the stream takes nothing ends the loop through
  \<^verbatim>\<open>exit(4)\<close>, with the message, whatever the stream took of the writes before it.\<close>

lemma fwrite_zero: "room f = Some 0 # rest \<Longrightarrow> fst (fwrite cells f) = 0"
  by (simp add: fwrite_def)

lemma loop_zero_write_exits:
  assumes "room (filePoiter s) = pre @ Some 0 # rest"
    and "slice + OBJ_BUFFER * int (length pre) < gl_nVoxel (gl s) Y"
  shows "\<exists>s'. generation_loop V t slice s = Inl (4, s') \<and>
           printed s' = printed s @ [(Stdout, UnableToWriteOnFile)]"
  using assms
proof (induction pre arbitrary: slice s)
  case Nil
  then have lt: "slice < gl_nVoxel (gl s) Y" by simp
  from Nil have "room (filePoiter s) = Some 0 # rest" by simp
  then have "fst (fwrite (map (\<lambda>i. DoubleCell
              (run_call V (gl s) (dispatch (gl s) t (nOfSlices_at (gl s) slice) slice) (grid s) i))
              [0..<chunk_count (gl s) (nOfSlices_at (gl s) slice)]) (filePoiter s)) = 0"
    by (rule fwrite_zero)
  from chunk_exit [OF this] obtain s' where c: "chunk V t slice s = Inl (4, s')" ..
  then have "generation_loop V t slice s = Inl (4, s')"
    using lt by (simp add: generation_loop.simps [of V t slice s])
  with chunk_Inl(3) [OF c] show ?case by blast
next
  case (Cons x pre)
  have lt: "slice < gl_nVoxel (gl s) Y"
    using Cons.prems(2) by (simp add: OBJ_BUFFER_def)
  show ?case
  proof (cases "chunk V t slice s")
    case (Inl y)
    obtain st s' where y: "y = (st, s')" by (cases y)
    from chunk_Inl(1,3) [OF Inl [unfolded y]]
    have "st = 4" and "printed s' = printed s @ [(Stdout, UnableToWriteOnFile)]" .
    moreover have "generation_loop V t slice s = Inl (st, s')"
      using lt Inl y by (simp add: generation_loop.simps [of V t slice s])
    ultimately show ?thesis by blast
  next
    case (Inr s1)
    note c = chunk_Inr [OF Inr]
    have r1: "room (filePoiter s1) = pre @ Some 0 # rest"
      using c(5) Cons.prems(1) by simp
    have l1: "slice + OBJ_BUFFER + OBJ_BUFFER * int (length pre) < gl_nVoxel (gl s1) Y"
      using Cons.prems(2) c(1) by (simp add: distrib_left)
    from Cons.IH [OF r1 l1] obtain s' where
      "generation_loop V t (slice + OBJ_BUFFER) s1 = Inl (4, s')"
      "printed s' = printed s1 @ [(Stdout, UnableToWriteOnFile)]" by blast
    moreover have "generation_loop V t slice s = generation_loop V t (slice + OBJ_BUFFER) s1"
      using lt Inr by (simp add: generation_loop.simps [of V t slice s])
    ultimately show ?thesis using c(2) by auto
  qed
qed

lemma before_loop_room:
  fixes garbage :: "nat \<Rightarrow> 'v"
  shows "room (filePoiter (snd (before_loop rnd d raw e garbage argv))) =
     (if raw then faults e else tl (faults e))"
  by (simp add: before_loop_def Let_def writeSetUp_def initial_state_def fwrite_room
      case_prod_unfold)

lemma before_loop_header_nonzero:
  fixes garbage :: "nat \<Rightarrow> 'v"
  assumes "\<not> raw" and "faults e = x # r" and "x \<noteq> Some 0"
  shows "fst (before_loop rnd d raw e garbage argv) \<noteq> 0"
  using assms
  by (cases x)
     (simp_all add: before_loop_def Let_def writeSetUp_def initial_state_def fwrite_def
       setUp_def sizeof_int_def)

lemma main_zero_chunk_write:
  fixes garbage :: "nat \<Rightarrow> 'v"
  assumes "2 \<le> length argv" and "length argv \<le> 4" and "fopen_ok e"
    and "faults e = pre @ Some 0 # rest"
    and "raw \<or> (pre \<noteq> [] \<and> hd pre \<noteq> Some 0)"
    and "OBJ_BUFFER * (int (length pre) - (if raw then 0 else 1)) < gl_nVoxel (resolve rnd d argv) Y"
  shows "fst (main rnd d raw V e garbage argv) = 4 \<and>
         printed (snd (main rnd d raw V e garbage argv)) = [(Stdout, UnableToWriteOnFile)]"
proof -
  let ?B = "before_loop rnd d raw e garbage argv"
  let ?p = "if raw then pre else tl pre"
  have h: "raw \<or> fst ?B \<noteq> 0"
  proof (cases raw)
    case True
    then show ?thesis by simp
  next
    case False
    with assms(5) obtain x p where p: "pre = x # p" and x: "x \<noteq> Some 0"
      by (cases pre) auto
    with assms(4) have "faults e = x # (p @ Some 0 # rest)" by simp
    from before_loop_header_nonzero [OF False this x,
        where garbage = garbage and rnd = rnd and d = d and argv = argv]
    show ?thesis by simp
  qed
  have r: "room (filePoiter (snd ?B)) = ?p @ Some 0 # rest"
    using assms(4,5) by (cases pre) (auto simp: before_loop_room)
  have l: "0 + OBJ_BUFFER * int (length ?p) < gl_nVoxel (gl (snd ?B)) Y"
    using assms(5,6) by (cases pre) (auto simp: before_loop_gl)
  from loop_zero_write_exits [OF r l, of V "parse_objectType argv"]
  obtain s' where "generation_loop V (parse_objectType argv) 0 (snd ?B) = Inl (4, s')"
    "printed s' = printed (snd ?B) @ [(Stdout, UnableToWriteOnFile)]" by blast
  then show ?thesis
    unfolding main_loop [OF assms(1-3) h] by (simp add: before_loop_printed)
qed

lemma main_status_message:
  fixes garbage :: "nat \<Rightarrow> 'v"
  shows "fst (main rnd d raw V e garbage argv) \<noteq> 0 \<longrightarrow>
     printed (snd (main rnd d raw V e garbage argv)) =
       [(Stderr, Usage (case argv of [] \<Rightarrow> [] | a # _ \<Rightarrow> a))] \<or>
     printed (snd (main rnd d raw V e garbage argv)) = [(Stdout, UnableToOpenFile)] \<or>
     printed (snd (main rnd d raw V e garbage argv)) = [(Stdout, UnableToWriteOnFile)]"
proof (cases "2 \<le> length argv \<and> length argv \<le> 4")
  case False
  then have "length argv > 4 \<or> length argv < 2" by auto
  then show ?thesis by (simp add: main_usage)
next
  case True
  then have a: "2 \<le> length argv" "length argv \<le> 4" by auto
  show ?thesis
  proof (cases "fopen_ok e")
    case False
    then show ?thesis by (simp add: main_open_failed [OF a])
  next
    case op: True
    show ?thesis
    proof (cases "raw \<or> fst (before_loop rnd d raw e garbage argv) \<noteq> 0")
      case True
      from main_final(4,5) [OF a op True, of V] show ?thesis by auto
    next
      case False
      then have "\<not> raw" and "fst (before_loop rnd d raw e garbage argv) = 0" by auto
      from main_header_failed [OF a op this, of V] show ?thesis by simp
    qed
  qed
qed


text \<open>
  Claim C9, as amended. Each failure the program checks for ends the run with a message
  and a status of its own: a wrong number of arguments with \<open>EXIT_FAILURE\<close> and the
  usage text on the error stream, a file that does not open with \<open>2\<close>, a header write
  that returns \<open>0\<close> with \<open>3\<close>, and a chunk write that returns \<open>0\<close> (the stream takes nothing
  of it, whatever it took of the writes before) with \<open>4\<close>. The four statuses are
  different from each other and from \<open>0\<close>, and no run ends with a status other than \<open>0\<close>
  without one of the three messages.
\<close>

theorem detected_failures_reported:
  fixes garbage :: "nat \<Rightarrow> 'v"
  assumes "main rnd d raw V e garbage argv = (st, s)"
  shows
    "(length argv > 4 \<or> length argv < 2 \<longrightarrow>
        st = EXIT_FAILURE \<and> printed s = [(Stderr, Usage (case argv of [] \<Rightarrow> [] | a # _ \<Rightarrow> a))]) \<and>
     (2 \<le> length argv \<and> length argv \<le> 4 \<and> \<not> fopen_ok e \<longrightarrow>
        st = 2 \<and> printed s = [(Stdout, UnableToOpenFile)]) \<and>
     (2 \<le> length argv \<and> length argv \<le> 4 \<and> fopen_ok e \<and> \<not> raw \<and>
      fst (writeSetUp (resolve rnd d argv) (\<lparr> content = [], room = faults e \<rparr> :: 'v stream)) = 0 \<longrightarrow>
        st = 3 \<and> printed s = [(Stdout, UnableToWriteOnFile)]) \<and>
     (2 \<le> length argv \<and> length argv \<le> 4 \<and> fopen_ok e \<and>
      faults e = pre @ Some 0 # rest \<and> (raw \<or> (pre \<noteq> [] \<and> hd pre \<noteq> Some 0)) \<and>
      OBJ_BUFFER * (int (length pre) - (if raw then 0 else 1)) < gl_nVoxel (resolve rnd d argv) Y \<longrightarrow>
        st = 4 \<and> printed s = [(Stdout, UnableToWriteOnFile)]) \<and>
     (\<forall>t slice s0.
        fst (fwrite (map (\<lambda>i. DoubleCell
              (run_call V (gl s0) (dispatch (gl s0) t (nOfSlices_at (gl s0) slice) slice) (grid s0) i))
              [0..<chunk_count (gl s0) (nOfSlices_at (gl s0) slice)]) (filePoiter s0)) = 0 \<longrightarrow>
        (\<exists>s'. chunk V t slice s0 = Inl (4, s'))) \<and>
     (st \<noteq> 0 \<longrightarrow>
        printed s = [(Stderr, Usage (case argv of [] \<Rightarrow> [] | a # _ \<Rightarrow> a))] \<or>
        printed s = [(Stdout, UnableToOpenFile)] \<or>
        printed s = [(Stdout, UnableToWriteOnFile)]) \<and>
     distinct [0, EXIT_FAILURE, 2, 3, 4]"
proof -
  have usage: "length argv > 4 \<or> length argv < 2 \<longrightarrow>
        st = EXIT_FAILURE \<and> printed s = [(Stderr, Usage (case argv of [] \<Rightarrow> [] | a # _ \<Rightarrow> a))]"
    using assms main_usage [of argv rnd d raw V e garbage] by auto
  have opn: "2 \<le> length argv \<and> length argv \<le> 4 \<and> \<not> fopen_ok e \<longrightarrow>
        st = 2 \<and> printed s = [(Stdout, UnableToOpenFile)]"
    using assms main_open_failed [of argv e rnd d raw V garbage] by auto
  have hdr: "2 \<le> length argv \<and> length argv \<le> 4 \<and> fopen_ok e \<and> \<not> raw \<and>
      fst (writeSetUp (resolve rnd d argv) (\<lparr> content = [], room = faults e \<rparr> :: 'v stream)) = 0 \<longrightarrow>
        st = 3 \<and> printed s = [(Stdout, UnableToWriteOnFile)]"
  proof (intro impI, elim conjE)
    assume a: "2 \<le> length argv" "length argv \<le> 4" "fopen_ok e" "\<not> raw"
      and h: "fst (writeSetUp (resolve rnd d argv) (\<lparr> content = [], room = faults e \<rparr> :: 'v stream)) = 0"
    from h a(4) have "fst (before_loop rnd d raw e garbage argv) = 0"
      by (simp add: before_loop_header_fst)
    from main_header_failed [OF a this, of V] assms
    show "st = 3 \<and> printed s = [(Stdout, UnableToWriteOnFile)]" by auto
  qed
  have dat: "2 \<le> length argv \<and> length argv \<le> 4 \<and> fopen_ok e \<and>
      faults e = pre @ Some 0 # rest \<and> (raw \<or> (pre \<noteq> [] \<and> hd pre \<noteq> Some 0)) \<and>
      OBJ_BUFFER * (int (length pre) - (if raw then 0 else 1)) < gl_nVoxel (resolve rnd d argv) Y \<longrightarrow>
        st = 4 \<and> printed s = [(Stdout, UnableToWriteOnFile)]"
  proof (intro impI, elim conjE)
    assume a: "2 \<le> length argv" "length argv \<le> 4" "fopen_ok e"
      "faults e = pre @ Some 0 # rest" "raw \<or> (pre \<noteq> [] \<and> hd pre \<noteq> Some 0)"
      "OBJ_BUFFER * (int (length pre) - (if raw then 0 else 1)) < gl_nVoxel (resolve rnd d argv) Y"
    from main_zero_chunk_write [OF a, of V garbage] assms
    show "st = 4 \<and> printed s = [(Stdout, UnableToWriteOnFile)]" by simp
  qed
  have chk: "\<forall>t slice s0.
        fst (fwrite (map (\<lambda>i. DoubleCell
              (run_call V (gl s0) (dispatch (gl s0) t (nOfSlices_at (gl s0) slice) slice) (grid s0) i))
              [0..<chunk_count (gl s0) (nOfSlices_at (gl s0) slice)]) (filePoiter s0)) = 0 \<longrightarrow>
        (\<exists>s'. chunk V t slice s0 = Inl (4, s'))"
    using chunk_exit by blast
  have msg: "st \<noteq> 0 \<longrightarrow>
        printed s = [(Stderr, Usage (case argv of [] \<Rightarrow> [] | a # _ \<Rightarrow> a))] \<or>
        printed s = [(Stdout, UnableToOpenFile)] \<or>
        printed s = [(Stdout, UnableToWriteOnFile)]"
    using main_status_message [of rnd d raw V e garbage argv] assms by simp
  have dst: "distinct [0, EXIT_FAILURE, 2, 3, 4]"
    by (simp add: EXIT_FAILURE_def)
  from usage opn hdr dat chk msg dst show ?thesis by blast
qed

lemma resolve_small_default:
  "gl_nVoxel (resolve exact small_defaults [''prog'', ''out.dat'']) Y = 3"
  by (simp add: resolve_def compute_counts_def initial_globals_def small_defaults_def
      c_div_def Let_def)

theorem detected_failures_witness:
  "fst (main exact small_defaults False (spec_voxel (1 / 4)) no_faults zeros [''prog'']) = 1 \<and>
   printed (snd (main exact small_defaults False (spec_voxel (1 / 4)) no_faults zeros [''prog''])) =
     [(Stderr, Usage ''prog'')] \<and>
   fst (main exact small_defaults False (spec_voxel (1 / 4)) \<lparr> fopen_ok = False, faults = [] \<rparr> zeros
      [''prog'', ''out.dat'']) = 2 \<and>
   printed (snd (main exact small_defaults False (spec_voxel (1 / 4)) \<lparr> fopen_ok = False, faults = [] \<rparr>
      zeros [''prog'', ''out.dat''])) = [(Stdout, UnableToOpenFile)] \<and>
   fst (main exact small_defaults False (spec_voxel (1 / 4)) \<lparr> fopen_ok = True, faults = [Some 0] \<rparr>
      zeros [''prog'', ''out.dat'']) = 3 \<and>
   printed (snd (main exact small_defaults False (spec_voxel (1 / 4))
      \<lparr> fopen_ok = True, faults = [Some 0] \<rparr> zeros [''prog'', ''out.dat''])) =
     [(Stdout, UnableToWriteOnFile)] \<and>
   fst (main exact small_defaults False (spec_voxel (1 / 4))
      \<lparr> fopen_ok = True, faults = [None, Some 0] \<rparr> zeros [''prog'', ''out.dat'']) = 4 \<and>
   printed (snd (main exact small_defaults False (spec_voxel (1 / 4))
      \<lparr> fopen_ok = True, faults = [None, Some 0] \<rparr> zeros [''prog'', ''out.dat''])) =
     [(Stdout, UnableToWriteOnFile)]"
proof -
  have u: "fst (main exact small_defaults False (spec_voxel (1 / 4)) no_faults zeros [''prog'']) = 1 \<and>
      printed (snd (main exact small_defaults False (spec_voxel (1 / 4)) no_faults zeros [''prog''])) =
        [(Stderr, Usage ''prog'')]"
    using detected_failures_reported [OF prod.collapse [symmetric],
      where rnd = exact and d = small_defaults and raw = False and V = "spec_voxel (1 / 4)"
        and e = no_faults and garbage = zeros and argv = "[''prog'']"]
    by (simp add: EXIT_FAILURE_def)
  have o: "fst (main exact small_defaults False (spec_voxel (1 / 4)) \<lparr> fopen_ok = False, faults = [] \<rparr>
        zeros [''prog'', ''out.dat'']) = 2 \<and>
      printed (snd (main exact small_defaults False (spec_voxel (1 / 4))
        \<lparr> fopen_ok = False, faults = [] \<rparr> zeros [''prog'', ''out.dat''])) =
        [(Stdout, UnableToOpenFile)]"
    using detected_failures_reported [OF prod.collapse [symmetric],
      where rnd = exact and d = small_defaults and raw = False and V = "spec_voxel (1 / 4)"
        and e = "\<lparr> fopen_ok = False, faults = [] \<rparr>" and garbage = zeros
        and argv = "[''prog'', ''out.dat'']"]
    by simp
  have h: "fst (main exact small_defaults False (spec_voxel (1 / 4))
        \<lparr> fopen_ok = True, faults = [Some 0] \<rparr> zeros [''prog'', ''out.dat'']) = 3 \<and>
      printed (snd (main exact small_defaults False (spec_voxel (1 / 4))
        \<lparr> fopen_ok = True, faults = [Some 0] \<rparr> zeros [''prog'', ''out.dat''])) =
        [(Stdout, UnableToWriteOnFile)]"
    using detected_failures_reported [OF prod.collapse [symmetric],
      where rnd = exact and d = small_defaults and raw = False and V = "spec_voxel (1 / 4)"
        and e = "\<lparr> fopen_ok = True, faults = [Some 0] \<rparr>" and garbage = zeros
        and argv = "[''prog'', ''out.dat'']"]
    by (simp add: writeSetUp_def fwrite_def)
  have c: "fst (main exact small_defaults False (spec_voxel (1 / 4))
        \<lparr> fopen_ok = True, faults = [None, Some 0] \<rparr> zeros [''prog'', ''out.dat'']) = 4 \<and>
      printed (snd (main exact small_defaults False (spec_voxel (1 / 4))
        \<lparr> fopen_ok = True, faults = [None, Some 0] \<rparr> zeros [''prog'', ''out.dat''])) =
        [(Stdout, UnableToWriteOnFile)]"
    using detected_failures_reported [OF prod.collapse [symmetric],
      where rnd = exact and d = small_defaults and raw = False and V = "spec_voxel (1 / 4)"
        and e = "\<lparr> fopen_ok = True, faults = [None, Some 0] \<rparr>" and garbage = zeros
        and argv = "[''prog'', ''out.dat'']" and pre = "[None]" and rest = "[]"]
    by (simp add: resolve_small_default OBJ_BUFFER_def)
  from u o h c show ?thesis by blast
qed

text \<open>
  The claim as stated fails: a pixel count that is not a number is an argument error, and
  the run ends with status \<open>0\<close> and the summary, having written a header and no data.
\<close>

theorem argument_error_ignored:
  "fst (main exact small_defaults False (spec_voxel (1 / 4)) no_faults zeros
      [''prog'', ''out.dat'', ''3'', ''abc'']) = 0 \<and>
   printed (snd (main exact small_defaults False (spec_voxel (1 / 4)) no_faults zeros
      [''prog'', ''out.dat'', ''3'', ''abc''])) = [(Stdout, OutputFileDetails 0 64 0 0 64 0)] \<and>
   data_cells (content (filePoiter (snd (main exact small_defaults False (spec_voxel (1 / 4)) no_faults
      zeros [''prog'', ''out.dat'', ''3'', ''abc''])))) = []"
  by (simp add: run_eval data_cells_def)

subsection \<open>Degenerate configurations\<close>

lemma data_cells_append: "data_cells (xs @ ys) = data_cells xs @ data_cells ys"
  by (simp add: data_cells_def)

lemma data_cells_IntCell: "data_cells (map IntCell xs) = []"
  by (induction xs) (simp_all add: data_cells_def)

lemma data_cells_DoubleCell: "data_cells (map DoubleCell ds) = ds"
  by (induction ds) (simp_all add: data_cells_def)

lemma before_loop_content:
  fixes garbage :: "nat \<Rightarrow> 'v"
  shows "content (filePoiter (snd (before_loop rnd d raw e garbage argv))) =
     (if raw then []
      else map IntCell
             (take (fst (fwrite (map IntCell (setUp (resolve rnd d argv)))
                      (\<lparr> content = [], room = faults e \<rparr> :: 'v stream)))
                (setUp (resolve rnd d argv))))"
  by (simp add: before_loop_def Let_def writeSetUp_def initial_state_def fwrite_content take_map
      case_prod_unfold)

lemma loop_skip: "\<not> slice < gl_nVoxel (gl s) Y \<Longrightarrow> generation_loop V t slice s = Inr s"
  by (simp add: generation_loop.simps [of V t slice s])

text \<open>
  Claim C8, as amended. The program does not reject a grid without layers. When the
  resolved \<open>nVoxel[Y]\<close> is zero or negative, the file opens and the header write is not
  reported as failed, the loop body never runs: no call into the classifier, no density
  value in the file, and the run ends with status \<open>0\<close> after printing the summary.
\<close>

theorem no_layers_runs_to_completion:
  assumes "2 \<le> length argv" and "length argv \<le> 4"
    and "gl_nVoxel (resolve rnd d argv) Y \<le> 0"
    and "fopen_ok e"
    and "raw \<or> fst (before_loop rnd d raw e garbage argv) \<noteq> 0"
    and "main rnd d raw V e garbage argv = (st, s)"
  shows "st = 0 \<and> calls s = [] \<and> data_cells (content (filePoiter s)) = [] \<and>
    printed s = [(Stdout, summary (resolve rnd d argv) (fst (before_loop rnd d raw e garbage argv)))]"
proof -
  let ?s3 = "snd (before_loop rnd d raw e garbage argv)"
  have "\<not> 0 < gl_nVoxel (gl ?s3) Y"
    using assms(3) by (simp add: before_loop_gl)
  then have "generation_loop V (parse_objectType argv) 0 ?s3 = Inr ?s3"
    by (rule loop_skip)
  with main_loop [OF assms(1,2,4,5), of V] assms(6)
  have st: "st = 0"
    and s: "s = ?s3\<lparr> printed := printed ?s3 @
        [(Stdout, summary (gl ?s3) (fst (before_loop rnd d raw e garbage argv)))] \<rparr>"
    by simp_all
  have "calls s = []"
    by (simp add: s before_loop_calls)
  moreover have "data_cells (content (filePoiter s)) = []"
    by (simp add: s before_loop_content data_cells_IntCell data_cells_def)
  moreover have "printed s =
      [(Stdout, summary (resolve rnd d argv) (fst (before_loop rnd d raw e garbage argv)))]"
    by (simp add: s before_loop_printed before_loop_gl)
  ultimately show ?thesis using st by blast
qed

lemma resolve_small_minus: "gl_nVoxel (resolve exact small_defaults [''prog'', ''out.dat'', ''3'', ''-5'']) Y = - 2"
  by (simp add: resolve_def set_up_from_n_def compute_counts_def initial_globals_def small_defaults_def
     exact_def atoi_eval N_PIXEL_ALONG_SIDE_def c_div_def c_trunc_def double_to_int_def Let_def)

theorem no_layers_witness:
  "gl_nVoxel (resolve exact small_defaults [''prog'', ''out.dat'', ''3'', ''-5'']) Y = - 2 \<and>
   fst (main exact small_defaults True (spec_voxel (1 / 4)) no_faults zeros
      [''prog'', ''out.dat'', ''3'', ''-5'']) = 0 \<and>
   calls (snd (main exact small_defaults True (spec_voxel (1 / 4)) no_faults zeros
      [''prog'', ''out.dat'', ''3'', ''-5''])) = []"
  using no_layers_runs_to_completion [OF _ _ _ _ _ prod.collapse [symmetric],
      where rnd = exact and d = small_defaults and raw = True and V = "spec_voxel (1 / 4)"
        and e = no_faults and garbage = zeros and argv = "[''prog'', ''out.dat'', ''3'', ''-5'']"]
  by (simp add: resolve_small_minus no_faults_def)

text \<open>
  The claim as stated fails: with the pixel count \<open>0\<close> every \<open>nVoxel[i]\<close> is \<open>0\<close>, and the
  run ends with status \<open>0\<close> and the summary of a complete file.
\<close>

theorem zero_pixel_count_succeeds:
  "gl_nVoxel (gl (snd (main exact small_defaults False (spec_voxel (1 / 4)) no_faults zeros
      [''prog'', ''out.dat'', ''3'', ''0'']))) Y = 0 \<and>
   fst (main exact small_defaults False (spec_voxel (1 / 4)) no_faults zeros
      [''prog'', ''out.dat'', ''3'', ''0'']) = 0 \<and>
   printed (snd (main exact small_defaults False (spec_voxel (1 / 4)) no_faults zeros
      [''prog'', ''out.dat'', ''3'', ''0''])) = [(Stdout, OutputFileDetails 0 64 0 0 64 0)]"
  by (simp add: run_eval)

subsection \<open>Short writes\<close>

text \<open>
  Claim C7. The first \<open>fwrite\<close> of the run (the header) is complete and the second (the
  only chunk, 27 values) accepts one element. The program does not notice: it ends with
  status \<open>0\<close> and prints the summary of a file of 216 data bytes, and the file holds one
  density value.
\<close>

theorem short_chunk_write_unreported:
  "fst (main exact small_defaults False (spec_voxel (1 / 4)) \<lparr> fopen_ok = True, faults = [None, Some 1] \<rparr>
      zeros [''prog'', ''out.dat'']) = 0 \<and>
   printed (snd (main exact small_defaults False (spec_voxel (1 / 4))
      \<lparr> fopen_ok = True, faults = [None, Some 1] \<rparr> zeros [''prog'', ''out.dat''])) =
     [(Stdout, OutputFileDetails 216 64 3 3 64 3)] \<and>
   data_cells (content (filePoiter (snd (main exact small_defaults False (spec_voxel (1 / 4))
      \<lparr> fopen_ok = True, faults = [None, Some 1] \<rparr> zeros [''prog'', ''out.dat''])))) = [1] \<and>
   calls (snd (main exact small_defaults False (spec_voxel (1 / 4))
      \<lparr> fopen_ok = True, faults = [None, Some 1] \<rparr> zeros [''prog'', ''out.dat''])) =
     [(generateCubeSlice, 3, 0, 3)]"
  by (simp add: run_eval data_cells_def upt_conv_Cons spec_voxel_def classify_def shape_of_def
      voxel_at_def density_def)

subsection \<open>The header\<close>

lemma length_setUp: "length (setUp g) = 16"
  by (simp add: setUp_def)

lemma before_loop_full_header:
  fixes garbage :: "nat \<Rightarrow> 'v"
  assumes "\<not> raw"
    and "fst (fwrite (map IntCell (setUp (resolve rnd d argv)))
           (\<lparr> content = [], room = faults e \<rparr> :: 'v stream)) = 16"
  shows "fst (before_loop rnd d raw e garbage argv) = 16 * sizeof_int"
    and "content (filePoiter (snd (before_loop rnd d raw e garbage argv))) =
           map IntCell (setUp (resolve rnd d argv))"
proof -
  show "fst (before_loop rnd d raw e garbage argv) = 16 * sizeof_int"
    using assms
    by (simp add: before_loop_def Let_def writeSetUp_def initial_state_def case_prod_unfold
        length_setUp)
  show "content (filePoiter (snd (before_loop rnd d raw e garbage argv))) =
           map IntCell (setUp (resolve rnd d argv))"
    using assms by (simp add: before_loop_content length_setUp)
qed

text \<open>
  Claim C4. In a run that opens the file: without \<^verbatim>\<open>-DRAW\<close>, when the header write is
  complete (it returns 16), the file is the 16 integers \<open>pixelDim\<close>, \<open>angularTrajectory\<close>,
  \<open>positionsAngularDistance\<close>, \<open>objectSideLength\<close>, \<open>detectorSideLength\<close>,
  \<open>distanceObjectDetector\<close>, \<open>distanceObjectSource\<close>, the three voxel dimensions, the three
  voxel counts and the three plane counts, in this order, followed by density values
  only, so the header stands once, before every data chunk, and the data starts after
  \<open>16 * sizeof(int)\<close> bytes, which is the offset a successful run reports. With
  \<^verbatim>\<open>-DRAW\<close> the file holds density values only and a successful run reports the
  offset \<open>0\<close>.
\<close>

theorem header_layout:
  fixes garbage :: "nat \<Rightarrow> 'v"
  assumes "2 \<le> length argv" and "length argv \<le> 4" and "fopen_ok e"
    and "main rnd d raw V e garbage argv = (st, s)"
  shows
    "(\<not> raw \<and>
      fst (fwrite (map IntCell (setUp (resolve rnd d argv)))
             (\<lparr> content = [], room = faults e \<rparr> :: 'v stream)) = 16 \<longrightarrow>
        (\<exists>ds. content (filePoiter s) =
           map IntCell
             [gl_pixelDim (gl s), gl_angularTrajectory (gl s), gl_positionsAngularDistance (gl s),
              gl_objectSideLenght (gl s), gl_detectorSideLength (gl s),
              gl_distanceObjectDetector (gl s), gl_distanceObjectSource (gl s),
              gl_voxelXDim (gl s), gl_voxelYDim (gl s), gl_voxelZDim (gl s),
              gl_nVoxel (gl s) X, gl_nVoxel (gl s) Y, gl_nVoxel (gl s) Z,
              gl_nPlanes (gl s) X, gl_nPlanes (gl s) Y, gl_nPlanes (gl s) Z]
           @ map DoubleCell ds) \<and>
        (st = 0 \<longrightarrow> printed s = [(Stdout, summary (gl s) (16 * sizeof_int))])) \<and>
     (raw \<longrightarrow>
        (\<exists>ds. content (filePoiter s) = map DoubleCell ds) \<and>
        (st = 0 \<longrightarrow> printed s = [(Stdout, summary (gl s) 0)]))"
proof (intro conjI impI; (elim conjE)?)
  assume nr: "\<not> raw"
    and full: "fst (fwrite (map IntCell (setUp (resolve rnd d argv)))
             (\<lparr> content = [], room = faults e \<rparr> :: 'v stream)) = 16"
  note H = before_loop_full_header [OF nr full, of garbage]
  have h: "raw \<or> fst (before_loop rnd d raw e garbage argv) \<noteq> 0"
    by (simp add: H(1) sizeof_int_def)
  note F = main_final [OF assms(1-3) h, of V]
  have g: "gl s = resolve rnd d argv" using F(1) assms(4) by simp
  from F(2) assms(4) H(2) obtain ds where
    "content (filePoiter s) = map IntCell (setUp (resolve rnd d argv)) @ map DoubleCell ds"
    by auto
  then show "\<exists>ds. content (filePoiter s) =
           map IntCell
             [gl_pixelDim (gl s), gl_angularTrajectory (gl s), gl_positionsAngularDistance (gl s),
              gl_objectSideLenght (gl s), gl_detectorSideLength (gl s),
              gl_distanceObjectDetector (gl s), gl_distanceObjectSource (gl s),
              gl_voxelXDim (gl s), gl_voxelYDim (gl s), gl_voxelZDim (gl s),
              gl_nVoxel (gl s) X, gl_nVoxel (gl s) Y, gl_nVoxel (gl s) Z,
              gl_nPlanes (gl s) X, gl_nPlanes (gl s) Y, gl_nPlanes (gl s) Z]
           @ map DoubleCell ds"
    unfolding g by (auto simp: setUp_def)
  show "printed s = [(Stdout, summary (gl s) (16 * sizeof_int))]" if "st = 0"
    using F(6) that assms(4) g H(1) by simp
next
  assume r: raw
  then have h: "raw \<or> fst (before_loop rnd d raw e garbage argv) \<noteq> 0" by simp
  note F = main_final [OF assms(1-3) h, of V]
  have g: "gl s = resolve rnd d argv" using F(1) assms(4) by simp
  from F(2) assms(4) r show "\<exists>ds. content (filePoiter s) = map DoubleCell ds"
    by (simp add: before_loop_content)
  show "printed s = [(Stdout, summary (gl s) 0)]" if "st = 0"
    using F(6) that assms(4) g r by (simp add: before_loop_header_fst)
qed

theorem header_layout_witness:
  "take 16 (content (filePoiter (snd (main exact small_defaults False (spec_voxel (1 / 4)) no_faults
      zeros [''prog'', ''out.dat''])))) =
     map IntCell [100, 90, 15, 300, 600, 450, 1800, 100, 100, 100, 3, 3, 3, 4, 4, 4] \<and>
   fst (main exact small_defaults False (spec_voxel (1 / 4)) no_faults zeros
      [''prog'', ''out.dat'']) = 0"
proof -
  let ?m = "main exact small_defaults False (spec_voxel (1 / 4)) no_faults zeros [''prog'', ''out.dat'']"
  have g: "gl (snd ?m) = resolve exact small_defaults [''prog'', ''out.dat'']"
    by (simp add: main_gl)
  have r: "resolve exact small_defaults [''prog'', ''out.dat''] =
     \<lparr> gl_pixelDim = 100, gl_angularTrajectory = 90, gl_positionsAngularDistance = 15,
       gl_objectSideLenght = 300, gl_detectorSideLength = 600, gl_distanceObjectDetector = 450,
       gl_distanceObjectSource = 1800, gl_voxelXDim = 100, gl_voxelYDim = 100, gl_voxelZDim = 100,
       gl_nVoxel = case_axis 3 3 3, gl_nPlanes = case_axis 4 4 4 \<rparr>"
    by (simp add: resolve_def compute_counts_def initial_globals_def small_defaults_def c_div_def Let_def)
  have fo: "fopen_ok no_faults"
    by (simp add: no_faults_def)
  have full: "fst (fwrite (map IntCell (setUp (resolve exact small_defaults [''prog'', ''out.dat''])))
      (\<lparr> content = [], room = faults no_faults \<rparr> :: real stream)) = 16"
    by (simp add: no_faults_def fwrite_def setUp_def)
  have "\<exists>ds. content (filePoiter (snd ?m)) =
      map IntCell [100, 90, 15, 300, 600, 450, 1800, 100, 100, 100, 3, 3, 3, 4, 4, 4] @ map DoubleCell ds"
    using header_layout [OF _ _ fo prod.collapse [symmetric],
      where rnd = exact and d = small_defaults and raw = False and V = "spec_voxel (1 / 4)"
        and garbage = zeros and argv = "[''prog'', ''out.dat'']"] full
    by (simp add: g) (simp add: r)
  then have "take 16 (content (filePoiter (snd ?m))) =
     map IntCell [100, 90, 15, 300, 600, 450, 1800, 100, 100, 100, 3, 3, 3, 4, 4, 4]"
    by auto
  moreover have "fst ?m = 0"
    by (simp add: run_eval)
  ultimately show ?thesis by blast
qed

subsection \<open>The parameters derived from the pixel count\<close>

lemma int32_id: "- (2 ^ 31) \<le> k \<Longrightarrow> k < 2 ^ 31 \<Longrightarrow> int32 k = k"
  by (simp add: int32_def)

lemma double_to_int_id:
  "- (2 ^ 31) \<le> c_trunc x \<Longrightarrow> c_trunc x < 2 ^ 31 \<Longrightarrow> double_to_int x = c_trunc x"
  by (simp add: double_to_int_def)

text \<open>
  Claim C5, as amended. When the pixel count \<open>n\<close> is supplied, the run resolves the four
  derived parameters in the arithmetic of the program: the products \<open>n * voxelDim[X]\<close>,
  \<open>n * pixelDim\<close> and \<open>6 * objectSideLength\<close> are 32-bit products, the quotient
  \<open>OBJECT_SIDE_LENGTH / (VOXEL_X_DIM * N_PIXEL_ALONG_SIDE)\<close> and the products with it and
  with \<open>1.5\<close> are taken in \<^verbatim>\<open>double\<close> and converted to \<^verbatim>\<open>int\<close>. Whenever the three
  integer products are representable as an \<^verbatim>\<open>int\<close> and the two converted values are in
  its range, the parameters are \<open>n * voxelDim[X] * (OBJECT_SIDE_LENGTH / (VOXEL_X_DIM *
  N_PIXEL_ALONG_SIDE))\<close>, \<open>n * pixelDim\<close>, \<open>1.5 * objectSideLength\<close> and
  \<open>6 * objectSideLength\<close>, truncated. The pixel dimension, the angular trajectory, the
  angular distance and the three voxel dimensions keep their compiled values.
\<close>

theorem pixel_count_resolution:
  assumes "length argv = 4"
    and "main rnd d raw V e garbage argv = (st, s)"
  shows
    "gl_objectSideLenght (gl s) =
       double_to_int (rnd (real_of_int (int32 (atoi (argv ! 3) * VOXEL_X_DIM d)) *
         rnd (real_of_int (OBJECT_SIDE_LENGTH d) /
              real_of_int (int32 (VOXEL_X_DIM d * c_div (DETECTOR_SIDE_LENGTH d) (PIXEL_DIM d)))))) \<and>
     gl_detectorSideLength (gl s) = int32 (atoi (argv ! 3) * PIXEL_DIM d) \<and>
     gl_distanceObjectDetector (gl s) =
       double_to_int (rnd (3 / 2 * real_of_int (gl_objectSideLenght (gl s)))) \<and>
     gl_distanceObjectSource (gl s) = int32 (6 * gl_objectSideLenght (gl s)) \<and>
     (- (2 ^ 31) \<le> atoi (argv ! 3) * VOXEL_X_DIM d \<and> atoi (argv ! 3) * VOXEL_X_DIM d < 2 ^ 31 \<and>
      - (2 ^ 31) \<le> VOXEL_X_DIM d * c_div (DETECTOR_SIDE_LENGTH d) (PIXEL_DIM d) \<and>
      VOXEL_X_DIM d * c_div (DETECTOR_SIDE_LENGTH d) (PIXEL_DIM d) < 2 ^ 31 \<and>
      - (2 ^ 31) \<le> c_trunc (rnd (real_of_int (atoi (argv ! 3) * VOXEL_X_DIM d) *
         rnd (real_of_int (OBJECT_SIDE_LENGTH d) /
              real_of_int (VOXEL_X_DIM d * c_div (DETECTOR_SIDE_LENGTH d) (PIXEL_DIM d))))) \<and>
      c_trunc (rnd (real_of_int (atoi (argv ! 3) * VOXEL_X_DIM d) *
         rnd (real_of_int (OBJECT_SIDE_LENGTH d) /
              real_of_int (VOXEL_X_DIM d * c_div (DETECTOR_SIDE_LENGTH d) (PIXEL_DIM d))))) < 2 ^ 31 \<longrightarrow>
        gl_objectSideLenght (gl s) =
          c_trunc (rnd (real_of_int (atoi (argv ! 3) * VOXEL_X_DIM d) *
            rnd (real_of_int (OBJECT_SIDE_LENGTH d) /
                 real_of_int (VOXEL_X_DIM d * c_div (DETECTOR_SIDE_LENGTH d) (PIXEL_DIM d)))))) \<and>
     (- (2 ^ 31) \<le> atoi (argv ! 3) * PIXEL_DIM d \<and> atoi (argv ! 3) * PIXEL_DIM d < 2 ^ 31 \<longrightarrow>
        gl_detectorSideLength (gl s) = atoi (argv ! 3) * PIXEL_DIM d) \<and>
     (- (2 ^ 31) \<le> c_trunc (rnd (3 / 2 * real_of_int (gl_objectSideLenght (gl s)))) \<and>
      c_trunc (rnd (3 / 2 * real_of_int (gl_objectSideLenght (gl s)))) < 2 ^ 31 \<longrightarrow>
        gl_distanceObjectDetector (gl s) =
          c_trunc (rnd (3 / 2 * real_of_int (gl_objectSideLenght (gl s))))) \<and>
     (- (2 ^ 31) \<le> 6 * gl_objectSideLenght (gl s) \<and> 6 * gl_objectSideLenght (gl s) < 2 ^ 31 \<longrightarrow>
        gl_distanceObjectSource (gl s) = 6 * gl_objectSideLenght (gl s)) \<and>
     gl_pixelDim (gl s) = PIXEL_DIM d \<and>
     gl_angularTrajectory (gl s) = ANGULAR_TRAJECTORY d \<and>
     gl_positionsAngularDistance (gl s) = POSITIONS_ANGULAR_DISTANCE d \<and>
     gl_voxelXDim (gl s) = VOXEL_X_DIM d \<and>
     gl_voxelYDim (gl s) = VOXEL_Y_DIM d \<and>
     gl_voxelZDim (gl s) = VOXEL_Z_DIM d"
proof -
  have "gl s = resolve rnd d argv"
    using main_gl [of argv rnd d raw V e garbage] assms by simp
  then show ?thesis
    using assms(1)
    by (simp add: resolve_def set_up_from_n_def compute_counts_def initial_globals_def
        N_PIXEL_ALONG_SIDE_def Let_def int32_id double_to_int_id)
qed

theorem pixel_count_resolution_witness:
  "gl_objectSideLenght (gl (snd (main exact small_defaults False (spec_voxel (1 / 4)) no_faults zeros
      [''prog'', ''out.dat'', ''2'', ''4'']))) = 200 \<and>
   gl_detectorSideLength (gl (snd (main exact small_defaults False (spec_voxel (1 / 4)) no_faults zeros
      [''prog'', ''out.dat'', ''2'', ''4'']))) = 400 \<and>
   gl_distanceObjectDetector (gl (snd (main exact small_defaults False (spec_voxel (1 / 4)) no_faults
      zeros [''prog'', ''out.dat'', ''2'', ''4'']))) = 300 \<and>
   gl_distanceObjectSource (gl (snd (main exact small_defaults False (spec_voxel (1 / 4)) no_faults
      zeros [''prog'', ''out.dat'', ''2'', ''4'']))) = 1200 \<and>
   gl_voxelYDim (gl (snd (main exact small_defaults False (spec_voxel (1 / 4)) no_faults
      zeros [''prog'', ''out.dat'', ''2'', ''4'']))) = 100"
  using pixel_count_resolution [OF _ prod.collapse [symmetric],
      where rnd = exact and d = small_defaults and raw = False and V = "spec_voxel (1 / 4)"
        and e = no_faults and garbage = zeros and argv = "[''prog'', ''out.dat'', ''2'', ''4'']"]
  by (simp add: small_defaults_def exact_def atoi_eval c_div_def c_trunc_def double_to_int_def)

text \<open>
  The claim as stated fails: with the pixel count \<open>42949673\<close> and a pixel dimension of
  \<open>100\<close> the product \<open>n * pixelDim\<close> is \<open>4294967300\<close>, which is not an \<^verbatim>\<open>int\<close>; the
  detector side length the run resolves is \<open>4\<close>, and the object side length is \<open>2\<close>.
\<close>

theorem pixel_count_product_wraps:
  "atoi ''42949673'' = 42949673 \<and>
   42949673 * PIXEL_DIM small_defaults = 4294967300 \<and>
   gl_detectorSideLength (gl (snd (main exact small_defaults False (spec_voxel (1 / 4)) no_faults
      zeros [''prog'', ''out.dat'', ''3'', ''42949673'']))) = 4 \<and>
   gl_objectSideLenght (gl (snd (main exact small_defaults False (spec_voxel (1 / 4)) no_faults
      zeros [''prog'', ''out.dat'', ''3'', ''42949673'']))) = 2"
  by (simp add: main_gl resolve_def set_up_from_n_def compute_counts_def initial_globals_def
      small_defaults_def exact_def atoi_eval N_PIXEL_ALONG_SIDE_def c_div_def c_trunc_def
      double_to_int_def Let_def)

subsection \<open>The chunked loop on a complete stream\<close>

lemma size_t_small: "0 \<le> k \<Longrightarrow> k < 2 ^ 31 \<Longrightarrow> size_t k = nat k"
  by (simp add: size_t_def)

lemma nOfSlices_at_min: "nOfSlices_at g slice = min OBJ_BUFFER (gl_nVoxel g Y - slice)"
  by (simp add: nOfSlices_at_def min_def)

lemma chunk_count_exact:
  assumes "0 < gl_nVoxel g X * gl_nVoxel g Z"
    and "gl_nVoxel g X * gl_nVoxel g Z * OBJ_BUFFER < 2 ^ 31"
    and "slice < gl_nVoxel g Y"
  shows "chunk_count g (nOfSlices_at g slice) =
           nat (gl_nVoxel g X * gl_nVoxel g Z * nOfSlices_at g slice)"
    and "0 < chunk_count g (nOfSlices_at g slice)"
proof -
  let ?A = "gl_nVoxel g X * gl_nVoxel g Z"
  let ?n = "nOfSlices_at g slice"
  have n: "0 < ?n" "?n \<le> OBJ_BUFFER"
    using assms(3) by (simp_all add: nOfSlices_at_def OBJ_BUFFER_def)
  have pos: "0 < ?A * ?n"
    using assms(1) n(1) by simp
  have "?A * ?n \<le> ?A * OBJ_BUFFER"
    using assms(1) n(2) by (simp add: mult_left_mono)
  then have lt: "?A * ?n < 2 ^ 31"
    using assms(2) by linarith
  show "chunk_count g ?n = nat (?A * ?n)"
    unfolding chunk_count_def using pos lt by (simp add: size_t_small)
  then show "0 < chunk_count g ?n"
    using pos by simp
qed

text \<open>An iteration on a stream that takes every write, for a chunk that is not empty.\<close>

lemma chunk_complete:
  assumes "set (room (filePoiter s)) \<subseteq> {None}"
    and "0 < gl_nVoxel (gl s) X * gl_nVoxel (gl s) Z"
    and "gl_nVoxel (gl s) X * gl_nVoxel (gl s) Z * OBJ_BUFFER < 2 ^ 31"
    and "slice < gl_nVoxel (gl s) Y"
  shows "chunk V t slice s =
    Inr (s\<lparr> filePoiter :=
              \<lparr> content = content (filePoiter s) @
                  map (\<lambda>i. DoubleCell
                        (run_call V (gl s) (dispatch (gl s) t (nOfSlices_at (gl s) slice) slice)
                           (grid s) i))
                    [0..<nat (gl_nVoxel (gl s) X * gl_nVoxel (gl s) Z * nOfSlices_at (gl s) slice)],
                room = tl (room (filePoiter s)) \<rparr>,
            grid := run_call V (gl s) (dispatch (gl s) t (nOfSlices_at (gl s) slice) slice) (grid s),
            calls := calls s @ [dispatch (gl s) t (nOfSlices_at (gl s) slice) slice] \<rparr>)"
  using chunk_count_exact [OF assms(2-4)]
  by (simp add: chunk_def Let_def fwrite_complete [OF assms(1)])

lemma layers_of_dispatch:
  "layers_of (dispatch g t n sl) = [nat sl..<nat (sl + n)]"
  by (simp add: layers_of_def dispatch_def)

lemma dispatch_layers:
  "(case dispatch g t n sl of (gen, n', sl', p) \<Rightarrow> n' = n \<and> sl' = sl)"
  by (simp add: dispatch_def)

lemma loop_complete:
  assumes "set (room (filePoiter s)) \<subseteq> {None}"
    and "0 < gl_nVoxel (gl s) X * gl_nVoxel (gl s) Z"
    and "gl_nVoxel (gl s) X * gl_nVoxel (gl s) Z * OBJ_BUFFER < 2 ^ 31"
    and "0 \<le> slice"
  shows "\<exists>s' cs ds. generation_loop V t slice s = Inr s' \<and> gl s' = gl s \<and>
      calls s' = calls s @ cs \<and>
      (\<forall>c \<in> set cs. case c of (gen, n, sl, p) \<Rightarrow> n = min OBJ_BUFFER (gl_nVoxel (gl s) Y - sl)) \<and>
      concat (map layers_of cs) = [nat slice..<nat (gl_nVoxel (gl s) Y)] \<and>
      content (filePoiter s') = content (filePoiter s) @ map DoubleCell ds \<and>
      int (length ds) =
        gl_nVoxel (gl s) X * gl_nVoxel (gl s) Z * max 0 (gl_nVoxel (gl s) Y - slice)"
  using assms
proof (induction V t slice s rule: generation_loop.induct)
  case (1 V t slice s)
  let ?g = "gl s"
  let ?A = "gl_nVoxel ?g X * gl_nVoxel ?g Z"
  let ?nY = "gl_nVoxel ?g Y"
  show ?case
  proof (cases "slice < ?nY")
    case False
    then have "generation_loop V t slice s = Inr s" by (rule loop_skip)
    moreover have "[nat slice..<nat ?nY] = []" using False by simp
    moreover have "max 0 (?nY - slice) = 0" using False by simp
    ultimately show ?thesis by simp
  next
    case True
    let ?n = "nOfSlices_at ?g slice"
    let ?c = "dispatch ?g t ?n slice"
    let ?b = "run_call V ?g ?c (grid s)"
    let ?cells = "map (\<lambda>i. DoubleCell (?b i)) [0..<nat (?A * ?n)]"
    let ?s1 = "s\<lparr> filePoiter := \<lparr> content = content (filePoiter s) @ ?cells,
                                   room = tl (room (filePoiter s)) \<rparr>,
                   grid := ?b, calls := calls s @ [?c] \<rparr>"
    have ch: "chunk V t slice s = Inr ?s1"
      using chunk_complete [OF "1.prems"(1-3) True, of V t] by simp
    have n: "?n = min OBJ_BUFFER (?nY - slice)" by (rule nOfSlices_at_min)
    have npos: "0 < ?n" using True by (simp add: n OBJ_BUFFER_def)
    have g1: "gl ?s1 = ?g" by simp
    have r1: "set (room (filePoiter ?s1)) \<subseteq> {None}"
      using set_tl_None [OF "1.prems"(1)] by simp
    from "1.IH" [OF True ch] r1 "1.prems"(2,3,4)
    obtain s' cs ds where
      L: "generation_loop V t (slice + OBJ_BUFFER) ?s1 = Inr s'" and
      G: "gl s' = ?g" and
      C: "calls s' = calls ?s1 @ cs" and
      N: "\<forall>c \<in> set cs. case c of (gen, n, sl, p) \<Rightarrow> n = min OBJ_BUFFER (?nY - sl)" and
      R: "concat (map layers_of cs) = [nat (slice + OBJ_BUFFER)..<nat ?nY]" and
      D: "content (filePoiter s') = content (filePoiter ?s1) @ map DoubleCell ds" and
      S: "int (length ds) = ?A * max 0 (?nY - (slice + OBJ_BUFFER))"
      by (auto simp: OBJ_BUFFER_def)
    have loop: "generation_loop V t slice s = Inr s'"
      using True ch L by (simp add: generation_loop.simps [of V t slice s])
    have calls: "calls s' = calls s @ (?c # cs)"
      using C by simp
    have each: "\<forall>c \<in> set (?c # cs). case c of (gen, n, sl, p) \<Rightarrow> n = min OBJ_BUFFER (?nY - sl)"
      using N n by (simp add: dispatch_def)
    have layers: "concat (map layers_of (?c # cs)) = [nat slice..<nat ?nY]"
    proof -
      have "concat (map layers_of (?c # cs)) =
          [nat slice..<nat (slice + ?n)] @ [nat (slice + OBJ_BUFFER)..<nat ?nY]"
        using R by (simp add: layers_of_dispatch)
      also have "\<dots> = [nat slice..<nat ?nY]"
      proof (cases "?nY - slice < OBJ_BUFFER")
        case True
        then have "slice + ?n = ?nY" and "[nat (slice + OBJ_BUFFER)..<nat ?nY] = []"
          by (simp_all add: n)
        then show ?thesis by simp
      next
        case False
        then have e: "?n = OBJ_BUFFER" by (simp add: n)
        have "nat slice \<le> nat (slice + OBJ_BUFFER)" "nat (slice + OBJ_BUFFER) \<le> nat ?nY"
          using False "1.prems"(4) by (simp_all add: OBJ_BUFFER_def)
        then show ?thesis
          unfolding e by (rule upt_append_le)
      qed
      finally show ?thesis .
    qed
    have content: "content (filePoiter s') =
        content (filePoiter s) @ map DoubleCell (map ?b [0..<nat (?A * ?n)] @ ds)"
      using D by simp
    have size: "int (length (map ?b [0..<nat (?A * ?n)] @ ds)) = ?A * max 0 (?nY - slice)"
    proof -
      have "0 \<le> ?A * ?n" using "1.prems"(2) npos by simp
      then have "int (length (map ?b [0..<nat (?A * ?n)] @ ds)) =
          ?A * ?n + ?A * max 0 (?nY - (slice + OBJ_BUFFER))"
        using S by simp
      also have "\<dots> = ?A * (?n + max 0 (?nY - (slice + OBJ_BUFFER)))"
        by (simp add: distrib_left)
      also have "?n + max 0 (?nY - (slice + OBJ_BUFFER)) = max 0 (?nY - slice)"
        using True by (simp add: n OBJ_BUFFER_def)
      finally show ?thesis .
    qed
    from loop G calls each layers content size show ?thesis by blast
  qed
qed


lemma resolve_column:
  "gl_nVoxel (resolve exact column_defaults [''prog'', ''out.dat'']) =
     (\<lambda>i. case i of X \<Rightarrow> 1 | Y \<Rightarrow> 250 | Z \<Rightarrow> 1)"
  by (simp add: resolve_def compute_counts_def initial_globals_def column_defaults_def
      small_defaults_def c_div_def Let_def)

lemma run_call_dispatch:
  "run_call V g (dispatch g t n sl) buf =
     V g (selected_generator t) n sl (generator_argument g t) buf"
  by (simp add: run_call_def dispatch_def selected_generator_def generator_argument_def)

lemma chunk_starts_rec:
  "chunk_starts slice nY =
     (if slice < nY then slice # chunk_starts (slice + OBJ_BUFFER) nY else [])"
proof (cases "slice < nY")
  case False
  then have "(nY - slice + OBJ_BUFFER - 1) div OBJ_BUFFER \<le> 0"
    by (simp add: OBJ_BUFFER_def)
  with False show ?thesis by (simp add: chunk_starts_def)
next
  case True
  let ?m = "nat ((nY - (slice + OBJ_BUFFER) + OBJ_BUFFER - 1) div OBJ_BUFFER)"
  have "(nY - slice + OBJ_BUFFER - 1) div OBJ_BUFFER =
      (nY - (slice + OBJ_BUFFER) + OBJ_BUFFER - 1) div OBJ_BUFFER + 1"
    by (simp add: OBJ_BUFFER_def)
  moreover have "0 \<le> (nY - (slice + OBJ_BUFFER) + OBJ_BUFFER - 1) div OBJ_BUFFER"
    using True by (simp add: OBJ_BUFFER_def)
  ultimately have n: "nat ((nY - slice + OBJ_BUFFER - 1) div OBJ_BUFFER) = Suc ?m"
    by simp
  have "map (\<lambda>k. slice + OBJ_BUFFER * int k) [0..<Suc ?m] =
      slice # map (\<lambda>k. slice + OBJ_BUFFER + OBJ_BUFFER * int k) [0..<?m]"
    by (simp add: upt_conv_Cons map_Suc_upt [symmetric] distrib_left del: upt_Suc)
  with True n show ?thesis by (simp add: chunk_starts_def)
qed


text \<open>On a stream that takes every write the loop appends what the spec asks for: chunk
  after chunk, what the selected function left in the buffer.\<close>

lemma loop_output:
  assumes "set (room (filePoiter s)) \<subseteq> {None}"
    and "0 < gl_nVoxel (gl s) X * gl_nVoxel (gl s) Z"
    and "gl_nVoxel (gl s) X * gl_nVoxel (gl s) Z * OBJ_BUFFER < 2 ^ 31"
  shows "\<exists>s'. generation_loop V t slice s = Inr s' \<and>
      content (filePoiter s') = content (filePoiter s) @
        map DoubleCell (chunks_output V (gl s) t (chunk_starts slice (gl_nVoxel (gl s) Y)) (grid s))"
  using assms
proof (induction V t slice s rule: generation_loop.induct)
  case (1 V t slice s)
  let ?g = "gl s"
  let ?A = "gl_nVoxel ?g X * gl_nVoxel ?g Z"
  let ?nY = "gl_nVoxel ?g Y"
  show ?case
  proof (cases "slice < ?nY")
    case False
    then have "generation_loop V t slice s = Inr s" by (rule loop_skip)
    moreover have "chunk_starts slice ?nY = []"
      using False by (simp add: chunk_starts_rec [of slice ?nY])
    ultimately show ?thesis by simp
  next
    case True
    let ?n = "nOfSlices_at ?g slice"
    let ?c = "dispatch ?g t ?n slice"
    let ?b = "run_call V ?g ?c (grid s)"
    let ?cells = "map (\<lambda>i. DoubleCell (?b i)) [0..<nat (?A * ?n)]"
    let ?s1 = "s\<lparr> filePoiter := \<lparr> content = content (filePoiter s) @ ?cells,
                                   room = tl (room (filePoiter s)) \<rparr>,
                   grid := ?b, calls := calls s @ [?c] \<rparr>"
    have ch: "chunk V t slice s = Inr ?s1"
      using chunk_complete [OF "1.prems"(1-3) True, of V t] by simp
    have n: "?n = min OBJ_BUFFER (?nY - slice)" by (rule nOfSlices_at_min)
    have r1: "set (room (filePoiter ?s1)) \<subseteq> {None}"
      using set_tl_None [OF "1.prems"(1)] by simp
    from "1.IH" [OF True ch] r1 "1.prems"(2,3)
    obtain s' where
      L: "generation_loop V t (slice + OBJ_BUFFER) ?s1 = Inr s'" and
      D: "content (filePoiter s') = content (filePoiter ?s1) @
        map DoubleCell (chunks_output V ?g t (chunk_starts (slice + OBJ_BUFFER) ?nY) ?b)"
      by auto
    have loop: "generation_loop V t slice s = Inr s'"
      using True ch L by (simp add: generation_loop.simps [of V t slice s])
    have st: "chunk_starts slice ?nY = slice # chunk_starts (slice + OBJ_BUFFER) ?nY"
      using True by (simp add: chunk_starts_rec [of slice ?nY])
    have "chunks_output V ?g t (chunk_starts slice ?nY) (grid s) =
        map ?b [0..<nat (?A * ?n)] @
        chunks_output V ?g t (chunk_starts (slice + OBJ_BUFFER) ?nY) ?b"
      unfolding st by (simp add: run_call_dispatch n)
    then have "content (filePoiter s') = content (filePoiter s) @
        map DoubleCell (chunks_output V ?g t (chunk_starts slice ?nY) (grid s))"
      using D by (simp add: comp_def)
    with loop show ?thesis by blast
  qed
qed

text \<open>When element \<open>i\<close> of a filled buffer is element \<open>a + i\<close> of a sequence \<open>L\<close>, the
  filled part of the buffer is a segment of \<open>L\<close>.\<close>

lemma segment_values:
  assumes "\<forall>i. i < k \<longrightarrow> f i = L (a + i)"
  shows "map f [0..<k] = map L [a..<a + k]"
proof -
  have "[a..<a + k] = map (\<lambda>i. i + a) [0..<k]"
    by (simp add: map_add_upt add.commute)
  then have "map L [a..<a + k] = map (\<lambda>i. L (i + a)) [0..<k]"
    by (simp add: comp_def)
  also have "\<dots> = map f [0..<k]"
    using assms by (intro map_cong [OF refl]) (simp add: add.commute)
  finally show ?thesis by simp
qed

text \<open>If every call of the selected function leaves in the buffer the part of a
  serialised grid \<open>L\<close> that starts at the layer it was called for, the chunks of the spec
  are the grid \<open>L\<close> from layer \<open>slice\<close> to the last one: every layer once, in order.\<close>

lemma chunks_output_layers:
  assumes "0 \<le> gl_nVoxel g X * gl_nVoxel g Z" and "0 \<le> slice"
    and "\<forall>n sl buf i. 0 \<le> sl \<and> 0 \<le> n \<and> int i < gl_nVoxel g X * gl_nVoxel g Z * n \<longrightarrow>
           V g (selected_generator t) n sl (generator_argument g t) buf i =
             L (nat (gl_nVoxel g X * gl_nVoxel g Z * sl) + i)"
  shows "chunks_output V g t (chunk_starts slice (gl_nVoxel g Y)) buf =
         map L [nat (gl_nVoxel g X * gl_nVoxel g Z * slice)..<
                nat (gl_nVoxel g X * gl_nVoxel g Z * gl_nVoxel g Y)]"
  using assms(2)
proof (induction "nat (gl_nVoxel g Y - slice)" arbitrary: slice buf rule: less_induct)
  case less
  let ?A = "gl_nVoxel g X * gl_nVoxel g Z"
  let ?nY = "gl_nVoxel g Y"
  note A = assms(1)
  show ?case
  proof (cases "slice < ?nY")
    case False
    then have "?A * ?nY \<le> ?A * slice"
      using A by (simp add: mult_left_mono)
    then have "[nat (?A * slice)..<nat (?A * ?nY)] = []" by simp
    moreover have "chunk_starts slice ?nY = []"
      using False by (simp add: chunk_starts_rec [of slice ?nY])
    ultimately show ?thesis by simp
  next
    case True
    let ?n = "min OBJ_BUFFER (?nY - slice)"
    let ?b = "V g (selected_generator t) ?n slice (generator_argument g t) buf"
    have npos: "0 < ?n" and nle: "slice + ?n \<le> ?nY"
      using True by (simp_all add: OBJ_BUFFER_def)
    have st: "chunk_starts slice ?nY = slice # chunk_starts (slice + OBJ_BUFFER) ?nY"
      using True by (simp add: chunk_starts_rec [of slice ?nY])
    have k: "nat (?A * (slice + ?n)) = nat (?A * slice) + nat (?A * ?n)"
      using A less.prems npos by (simp add: distrib_left nat_add_distrib)
    have "\<forall>i. i < nat (?A * ?n) \<longrightarrow> ?b i = L (nat (?A * slice) + i)"
      using assms(3) less.prems npos by auto
    then have first: "map ?b [0..<nat (?A * ?n)] =
        map L [nat (?A * slice)..<nat (?A * (slice + ?n))]"
      unfolding k by (rule segment_values)
    have IH: "chunks_output V g t (chunk_starts (slice + OBJ_BUFFER) ?nY) ?b =
        map L [nat (?A * (slice + OBJ_BUFFER))..<nat (?A * ?nY)]"
      using less.hyps [of "slice + OBJ_BUFFER" ?b] True less.prems
      by (simp add: OBJ_BUFFER_def)
    have rest: "[nat (?A * (slice + OBJ_BUFFER))..<nat (?A * ?nY)] =
        [nat (?A * (slice + ?n))..<nat (?A * ?nY)]"
    proof (cases "?nY - slice < OBJ_BUFFER")
      case True
      then have "slice + ?n = ?nY" by simp
      moreover have "?A * ?nY \<le> ?A * (slice + OBJ_BUFFER)"
        using True A by (simp add: mult_left_mono)
      ultimately show ?thesis by simp
    next
      case False
      then have "?n = OBJ_BUFFER" by simp
      then show ?thesis by simp
    qed
    have le1: "nat (?A * slice) \<le> nat (?A * (slice + ?n))"
      using A npos by (simp add: mult_left_mono nat_mono)
    have le2: "nat (?A * (slice + ?n)) \<le> nat (?A * ?nY)"
      using A nle by (simp add: mult_left_mono nat_mono)
    have "chunks_output V g t (chunk_starts slice ?nY) buf =
        map L ([nat (?A * slice)..<nat (?A * (slice + ?n))] @
               [nat (?A * (slice + ?n))..<nat (?A * ?nY)])"
      unfolding st using first IH rest by simp
    then show ?thesis
      by (simp only: upt_append_le [OF le1 le2])
  qed
qed


text \<open>
  Claim C1, as amended. For every configuration with \<open>nVoxel[X]\<close>, \<open>nVoxel[Y]\<close> and
  \<open>nVoxel[Z]\<close> all positive, for which \<open>nVoxel[X] * nVoxel[Z] * 100\<close> and
  \<open>nVoxel[Y] + 100\<close> fit an \<^verbatim>\<open>int\<close>, on a stream that takes every write, the loop runs
  to its end. Each of its calls asks for \<open>min 100 (nVoxel[Y] - slice)\<close> layers from its
  \<open>slice\<close> on, and the layers of the calls, one call after the other, are
  \<open>0, 1, \<dots>, nVoxel[Y] - 1\<close>. What the loop appends to the file is, chunk after chunk in
  the order of the calls, the first \<open>nVoxel[X] * nVoxel[Z]\<close> times that many elements of
  the buffer as the selected function of the classifier left it:
  \<open>nVoxel[X] * nVoxel[Y] * nVoxel[Z]\<close> values in all. When each call leaves in the buffer
  the part of a serialised grid \<open>L\<close> that starts at the layer it was called for, the
  values appended are the grid \<open>L\<close> from its first element to its last, so every layer
  stands in the file once and in order.
\<close>

theorem chunked_loop_covers_grid:
  assumes "0 < gl_nVoxel (gl s) X" and "0 < gl_nVoxel (gl s) Y" and "0 < gl_nVoxel (gl s) Z"
    and "gl_nVoxel (gl s) X * gl_nVoxel (gl s) Z * OBJ_BUFFER < 2 ^ 31"
    and "gl_nVoxel (gl s) Y + OBJ_BUFFER < 2 ^ 31"
    and "set (room (filePoiter s)) \<subseteq> {None}"
  shows "\<exists>s' cs. generation_loop V t 0 s = Inr s' \<and>
      calls s' = calls s @ cs \<and>
      (\<forall>c \<in> set cs. case c of (gen, n, sl, p) \<Rightarrow> n = min OBJ_BUFFER (gl_nVoxel (gl s) Y - sl)) \<and>
      concat (map layers_of cs) = [0..<nat (gl_nVoxel (gl s) Y)] \<and>
      content (filePoiter s') =
        content (filePoiter s) @
        map DoubleCell
          (chunks_output V (gl s) t (chunk_starts 0 (gl_nVoxel (gl s) Y)) (grid s)) \<and>
      int (length (chunks_output V (gl s) t (chunk_starts 0 (gl_nVoxel (gl s) Y)) (grid s))) =
        gl_nVoxel (gl s) X * gl_nVoxel (gl s) Y * gl_nVoxel (gl s) Z \<and>
      ((\<forall>n sl buf i.
          0 \<le> sl \<and> 0 \<le> n \<and> int i < gl_nVoxel (gl s) X * gl_nVoxel (gl s) Z * n \<longrightarrow>
          V (gl s) (selected_generator t) n sl (generator_argument (gl s) t) buf i =
            L (nat (gl_nVoxel (gl s) X * gl_nVoxel (gl s) Z * sl) + i)) \<longrightarrow>
       chunks_output V (gl s) t (chunk_starts 0 (gl_nVoxel (gl s) Y)) (grid s) =
         map L [0..<nat (gl_nVoxel (gl s) X * gl_nVoxel (gl s) Y * gl_nVoxel (gl s) Z)])"
proof -
  let ?out = "chunks_output V (gl s) t (chunk_starts 0 (gl_nVoxel (gl s) Y)) (grid s)"
  have A: "0 < gl_nVoxel (gl s) X * gl_nVoxel (gl s) Z"
    using assms(1,3) by simp
  have m: "max 0 (gl_nVoxel (gl s) Y - 0) = gl_nVoxel (gl s) Y"
    using assms(2) by simp
  from loop_complete [OF assms(6) A assms(4), of 0 V t]
  obtain s' cs ds where
    L: "generation_loop V t 0 s = Inr s'" and
    C: "calls s' = calls s @ cs"
      "\<forall>c \<in> set cs. case c of (gen, n, sl, p) \<Rightarrow> n = min OBJ_BUFFER (gl_nVoxel (gl s) Y - sl)"
      "concat (map layers_of cs) = [0..<nat (gl_nVoxel (gl s) Y)]" and
    D: "content (filePoiter s') = content (filePoiter s) @ map DoubleCell ds" and
    S: "int (length ds) = gl_nVoxel (gl s) X * gl_nVoxel (gl s) Z * gl_nVoxel (gl s) Y"
    unfolding m by auto
  from loop_output [OF assms(6) A assms(4), of V t 0] L
  have O: "content (filePoiter s') = content (filePoiter s) @ map DoubleCell ?out"
    by simp
  have "map DoubleCell ds = map DoubleCell ?out"
    using D O by simp
  then have ds: "ds = ?out"
    by (simp add: inj_map_eq_map inj_on_def)
  have len: "int (length ?out) =
      gl_nVoxel (gl s) X * gl_nVoxel (gl s) Y * gl_nVoxel (gl s) Z"
    using S unfolding ds by (simp add: mult_ac)
  have lay: "(\<forall>n sl buf i.
          0 \<le> sl \<and> 0 \<le> n \<and> int i < gl_nVoxel (gl s) X * gl_nVoxel (gl s) Z * n \<longrightarrow>
          V (gl s) (selected_generator t) n sl (generator_argument (gl s) t) buf i =
            L (nat (gl_nVoxel (gl s) X * gl_nVoxel (gl s) Z * sl) + i)) \<longrightarrow>
       ?out = map L [0..<nat (gl_nVoxel (gl s) X * gl_nVoxel (gl s) Y * gl_nVoxel (gl s) Z)]"
  proof
    assume f: "\<forall>n sl buf i.
          0 \<le> sl \<and> 0 \<le> n \<and> int i < gl_nVoxel (gl s) X * gl_nVoxel (gl s) Z * n \<longrightarrow>
          V (gl s) (selected_generator t) n sl (generator_argument (gl s) t) buf i =
            L (nat (gl_nVoxel (gl s) X * gl_nVoxel (gl s) Z * sl) + i)"
    have A0: "0 \<le> gl_nVoxel (gl s) X * gl_nVoxel (gl s) Z" using A by simp
    from chunks_output_layers [where g = "gl s" and slice = 0 and V = V and t = t and L = L
        and buf = "grid s", OF A0 order_refl f]
    show "?out = map L [0..<nat (gl_nVoxel (gl s) X * gl_nVoxel (gl s) Y * gl_nVoxel (gl s) Z)]"
      by (simp add: mult_ac)
  qed
  from L C O len lay show ?thesis by blast
qed

text \<open>The classifier modelled from the spec fills the buffer with the part of the
  serialised grid that starts at the layer it is called for.\<close>

lemma spec_voxel_layers:
  "int i < gl_nVoxel g X * gl_nVoxel g Z * n \<Longrightarrow>
   spec_voxel cf g gen n sl p buf i =
     voxel_at cf g (shape_of gen) (nat (gl_nVoxel g X * gl_nVoxel g Z * sl) + i)"
  by (simp add: spec_voxel_def classify_def)

theorem chunked_loop_witness:
  "\<exists>s'. generation_loop (spec_voxel (1 / 4)) 0 0
        (snd (before_loop exact column_defaults True no_faults zeros [''prog'', ''out.dat''])) = Inr s' \<and>
      concat (map layers_of (calls s')) = [0..<250] \<and>
      content (filePoiter s') =
        map DoubleCell
          (map (voxel_at (1 / 4) (resolve exact column_defaults [''prog'', ''out.dat'']) SolidCube)
             [0..<250])"
proof -
  let ?s = "snd (before_loop exact column_defaults True no_faults zeros [''prog'', ''out.dat''])"
  let ?g = "resolve exact column_defaults [''prog'', ''out.dat'']"
  have r: "set (room (filePoiter ?s)) \<subseteq> {None}"
    by (simp add: before_loop_def Let_def no_faults_def)
  have g: "gl ?s = ?g" by (rule before_loop_gl)
  have f: "\<forall>n sl buf i.
      0 \<le> sl \<and> 0 \<le> n \<and> int i < gl_nVoxel (gl ?s) X * gl_nVoxel (gl ?s) Z * n \<longrightarrow>
      spec_voxel (1 / 4) (gl ?s) (selected_generator 0) n sl (generator_argument (gl ?s) 0) buf i =
        voxel_at (1 / 4) ?g SolidCube
          (nat (gl_nVoxel (gl ?s) X * gl_nVoxel (gl ?s) Z * sl) + i)"
    unfolding g by (simp add: spec_voxel_layers selected_generator_def shape_of_def)
  from chunked_loop_covers_grid [of ?s "spec_voxel (1 / 4)" 0
      "voxel_at (1 / 4) ?g SolidCube"] r f
  obtain s' cs where
    "generation_loop (spec_voxel (1 / 4)) 0 0 ?s = Inr s'" "calls s' = calls ?s @ cs"
    "concat (map layers_of cs) = [0..<nat (gl_nVoxel (gl ?s) Y)]"
    "content (filePoiter s') = content (filePoiter ?s) @
       map DoubleCell (map (voxel_at (1 / 4) ?g SolidCube)
         [0..<nat (gl_nVoxel (gl ?s) X * gl_nVoxel (gl ?s) Y * gl_nVoxel (gl ?s) Z)])"
    unfolding g by (auto simp: resolve_column OBJ_BUFFER_def)
  then have "generation_loop (spec_voxel (1 / 4)) 0 0 ?s = Inr s' \<and>
      concat (map layers_of (calls s')) = [0..<250] \<and>
      content (filePoiter s') =
        map DoubleCell (map (voxel_at (1 / 4) ?g SolidCube) [0..<250])"
    by (simp add: before_loop_gl before_loop_calls before_loop_content resolve_column)
  then show ?thesis by blast
qed

text \<open>
  The claim as stated fails: with no voxel along \<open>x\<close> and 250 layers, the first chunk is a
  write of zero elements, \<^verbatim>\<open>fwrite\<close> returns \<open>0\<close>, and the loop is left through
  \<^verbatim>\<open>exit(4)\<close> after the call for the layers 0 to 99; the layers 100 to 249 are never
  asked for.
\<close>

theorem flat_grid_stops_after_first_chunk:
  "gl_nVoxel (gl (snd (main exact flat_defaults False (spec_voxel (1 / 4)) no_faults zeros
      [''prog'', ''out.dat'']))) Y = 250 \<and>
   fst (main exact flat_defaults False (spec_voxel (1 / 4)) no_faults zeros
      [''prog'', ''out.dat'']) = 4 \<and>
   calls (snd (main exact flat_defaults False (spec_voxel (1 / 4)) no_faults zeros
      [''prog'', ''out.dat''])) = [(generateCubeSlice, 100, 0, 0)]"
  by (simp add: run_eval flat_defaults_def column_defaults_def)

subsection \<open>Chunked and single-pass classification\<close>

text \<open>A call of the classifier for the layers from \<open>slice\<close> on leaves in the buffer the
  part of the serialised grid that starts at layer \<open>slice\<close>.\<close>

lemma classify_values:
  assumes "0 \<le> gl_nVoxel g X * gl_nVoxel g Z" and "0 \<le> slice" and "0 \<le> n"
  shows "map (classify cf g sh slice n buf) [0..<nat (gl_nVoxel g X * gl_nVoxel g Z * n)] =
         map (voxel_at cf g sh)
           [nat (gl_nVoxel g X * gl_nVoxel g Z * slice)..<
            nat (gl_nVoxel g X * gl_nVoxel g Z * (slice + n))]"
proof -
  let ?A = "gl_nVoxel g X * gl_nVoxel g Z"
  let ?a = "nat (?A * slice)"
  let ?k = "nat (?A * n)"
  have "nat (?A * (slice + n)) = ?k + ?a"
    using assms by (simp add: distrib_left nat_add_distrib)
  then have "[?a..<nat (?A * (slice + n))] = map (\<lambda>i. i + ?a) [0..<?k]"
    by (simp add: map_add_upt)
  then have "map (voxel_at cf g sh) [?a..<nat (?A * (slice + n))] =
      map (\<lambda>i. voxel_at cf g sh (i + ?a)) [0..<?k]"
    by (simp add: comp_def)
  also have "\<dots> = map (classify cf g sh slice n buf) [0..<?k]"
  proof (rule map_cong [OF refl])
    fix i assume "i \<in> set [0..<?k]"
    then have "int i < ?A * n" by auto
    then show "voxel_at cf g sh (i + ?a) = classify cf g sh slice n buf i"
      by (simp add: classify_def add.commute)
  qed
  finally show ?thesis by simp
qed

lemma whole_grid_values:
  assumes "0 \<le> gl_nVoxel g X * gl_nVoxel g Z" and "0 \<le> gl_nVoxel g Y"
  shows "whole_grid cf g sh =
         map (voxel_at cf g sh) [0..<nat (gl_nVoxel g X * gl_nVoxel g Z * gl_nVoxel g Y)]"
  using classify_values [OF assms(1) order_refl assms(2), of cf sh "\<lambda>i. 0"]
  by (simp add: whole_grid_def)

lemma chunked_generation_values:
  assumes "0 \<le> gl_nVoxel g X * gl_nVoxel g Z" and "0 \<le> slice"
    and "0 < K"
  shows "chunked_generation cf g sh K slice buf =
         map (voxel_at cf g sh)
           [nat (gl_nVoxel g X * gl_nVoxel g Z * slice)..<
            nat (gl_nVoxel g X * gl_nVoxel g Z * gl_nVoxel g Y)]"
  using assms
proof (induction cf g sh K slice buf rule: chunked_generation.induct)
  case (1 cf g sh K slice buf)
  let ?A = "gl_nVoxel g X * gl_nVoxel g Z"
  let ?nY = "gl_nVoxel g Y"
  show ?case
  proof (cases "slice < ?nY")
    case False
    then have "?A * ?nY \<le> ?A * slice"
      using "1.prems"(1) by (simp add: mult_left_mono)
    then have "[nat (?A * slice)..<nat (?A * ?nY)] = []" by simp
    moreover have "chunked_generation cf g sh K slice buf = []"
      using False by (simp add: chunked_generation.simps [of cf g sh K slice buf])
    ultimately show ?thesis by simp
  next
    case True
    let ?n = "min K (?nY - slice)"
    have n: "0 < ?n" "slice + ?n \<le> ?nY" using True "1.prems"(3) by simp_all
    have IH: "chunked_generation cf g sh K (slice + ?n) (classify cf g sh slice ?n buf) =
        map (voxel_at cf g sh) [nat (?A * (slice + ?n))..<nat (?A * ?nY)]"
      using "1.IH" True "1.prems" n(1) by simp
    have step: "chunked_generation cf g sh K slice buf =
        map (classify cf g sh slice ?n buf) [0..<nat (?A * ?n)] @
        chunked_generation cf g sh K (slice + ?n) (classify cf g sh slice ?n buf)"
      using True "1.prems"(3) by (simp add: chunked_generation.simps [of cf g sh K slice buf])
    have le1: "nat (?A * slice) \<le> nat (?A * (slice + ?n))"
      using "1.prems"(1) n(1) by (simp add: mult_left_mono nat_mono)
    have le2: "nat (?A * (slice + ?n)) \<le> nat (?A * ?nY)"
      using "1.prems"(1) n(2) by (simp add: mult_left_mono nat_mono)
    have "chunked_generation cf g sh K slice buf =
        map (voxel_at cf g sh) ([nat (?A * slice)..<nat (?A * (slice + ?n))] @
          [nat (?A * (slice + ?n))..<nat (?A * ?nY)])"
      unfolding step IH
      using classify_values [OF "1.prems"(1,2), of ?n cf sh buf] n(1) by simp
    then show ?thesis
      by (simp only: upt_append_le [OF le1 le2])
  qed
qed

lemma run_call_spec_voxel:
  "run_call (spec_voxel cf) g (dispatch g t n sl) buf =
     classify cf g (shape_of (fst (dispatch g t 0 0))) sl n buf"
  by (simp add: run_call_def spec_voxel_def dispatch_def)

lemma loop_spec_values:
  assumes "set (room (filePoiter s)) \<subseteq> {None}"
    and "0 < gl_nVoxel (gl s) X * gl_nVoxel (gl s) Z"
    and "gl_nVoxel (gl s) X * gl_nVoxel (gl s) Z * OBJ_BUFFER < 2 ^ 31"
    and "0 \<le> slice"
  shows "\<exists>s'. generation_loop (spec_voxel cf) t slice s = Inr s' \<and> gl s' = gl s \<and>
      content (filePoiter s') = content (filePoiter s) @
        map DoubleCell
          (map (voxel_at cf (gl s) (shape_of (fst (dispatch (gl s) t 0 0))))
             [nat (gl_nVoxel (gl s) X * gl_nVoxel (gl s) Z * slice)..<
              nat (gl_nVoxel (gl s) X * gl_nVoxel (gl s) Z * gl_nVoxel (gl s) Y)])"
  using assms
proof (induction "spec_voxel cf" t slice s rule: generation_loop.induct)
  case (1 t slice s)
  let ?g = "gl s"
  let ?A = "gl_nVoxel ?g X * gl_nVoxel ?g Z"
  let ?nY = "gl_nVoxel ?g Y"
  let ?sh = "shape_of (fst (dispatch ?g t 0 0))"
  have A: "0 \<le> ?A" using "1.prems"(2) by simp
  show ?case
  proof (cases "slice < ?nY")
    case False
    then have "?A * ?nY \<le> ?A * slice"
      using A by (simp add: mult_left_mono)
    then have "[nat (?A * slice)..<nat (?A * ?nY)] = []" by simp
    moreover have "generation_loop (spec_voxel cf) t slice s = Inr s"
      using False by (rule loop_skip)
    ultimately show ?thesis by simp
  next
    case True
    let ?n = "nOfSlices_at ?g slice"
    let ?c = "dispatch ?g t ?n slice"
    let ?b = "run_call (spec_voxel cf) ?g ?c (grid s)"
    let ?cells = "map (\<lambda>i. DoubleCell (?b i)) [0..<nat (?A * ?n)]"
    let ?s1 = "s\<lparr> filePoiter := \<lparr> content = content (filePoiter s) @ ?cells,
                                   room = tl (room (filePoiter s)) \<rparr>,
                   grid := ?b, calls := calls s @ [?c] \<rparr>"
    have ch: "chunk (spec_voxel cf) t slice s = Inr ?s1"
      using chunk_complete [OF "1.prems"(1-3) True, of "spec_voxel cf" t] by simp
    have n: "?n = min OBJ_BUFFER (?nY - slice)" by (rule nOfSlices_at_min)
    have npos: "0 < ?n" and nle: "slice + ?n \<le> ?nY" and nle': "slice + ?n \<le> slice + OBJ_BUFFER"
      using True by (simp_all add: n OBJ_BUFFER_def)
    have r1: "set (room (filePoiter ?s1)) \<subseteq> {None}"
      using set_tl_None [OF "1.prems"(1)] by simp
    from "1.hyps" [OF True ch] r1 "1.prems"(2,3,4)
    obtain s' where
      L: "generation_loop (spec_voxel cf) t (slice + OBJ_BUFFER) ?s1 = Inr s'" and
      G: "gl s' = ?g" and
      D: "content (filePoiter s') = content (filePoiter ?s1) @
        map DoubleCell (map (voxel_at cf ?g ?sh)
          [nat (?A * (slice + OBJ_BUFFER))..<nat (?A * ?nY)])"
      by (auto simp: OBJ_BUFFER_def)
    have loop: "generation_loop (spec_voxel cf) t slice s = Inr s'"
      using True ch L by (simp add: generation_loop.simps [of "spec_voxel cf" t slice s])
    have cells: "?cells = map DoubleCell (map (voxel_at cf ?g ?sh)
        [nat (?A * slice)..<nat (?A * (slice + ?n))])"
    proof -
      have "map ?b [0..<nat (?A * ?n)] =
          map (voxel_at cf ?g ?sh) [nat (?A * slice)..<nat (?A * (slice + ?n))]"
        unfolding run_call_spec_voxel
        using classify_values [OF A "1.prems"(4), of ?n cf ?sh "grid s"] npos by simp
      then have "map DoubleCell (map ?b [0..<nat (?A * ?n)]) =
          map DoubleCell (map (voxel_at cf ?g ?sh) [nat (?A * slice)..<nat (?A * (slice + ?n))])"
        by (rule arg_cong)
      then show ?thesis by (simp add: comp_def)
    qed
    have rest: "[nat (?A * (slice + OBJ_BUFFER))..<nat (?A * ?nY)] =
        [nat (?A * (slice + ?n))..<nat (?A * ?nY)]"
    proof (cases "?nY - slice < OBJ_BUFFER")
      case True
      then have "slice + ?n = ?nY" by (simp add: n)
      moreover have "?A * ?nY \<le> ?A * (slice + OBJ_BUFFER)"
        using True A by (simp add: mult_left_mono)
      ultimately show ?thesis by simp
    next
      case False
      then have "?n = OBJ_BUFFER" by (simp add: n)
      then show ?thesis by simp
    qed
    have le1: "nat (?A * slice) \<le> nat (?A * (slice + ?n))"
      using A npos by (simp add: mult_left_mono nat_mono)
    have le2: "nat (?A * (slice + ?n)) \<le> nat (?A * ?nY)"
      using A nle by (simp add: mult_left_mono nat_mono)
    have "content (filePoiter s') = content (filePoiter s) @
        map DoubleCell (map (voxel_at cf ?g ?sh)
          ([nat (?A * slice)..<nat (?A * (slice + ?n))] @
           [nat (?A * (slice + ?n))..<nat (?A * ?nY)]))"
      unfolding D rest using cells by simp
    then have "content (filePoiter s') = content (filePoiter s) @
        map DoubleCell (map (voxel_at cf ?g ?sh) [nat (?A * slice)..<nat (?A * ?nY)])"
      by (simp only: upt_append_le [OF le1 le2])
    with loop G show ?thesis by blast
  qed
qed


text \<open>
  Claim C2. For every shape and every grid with positive voxel counts, generating the
  grid in chunks of any positive size \<open>K\<close> gives the value sequence of classifying the
  whole grid in one pass; and the loop of \<open>main\<close>, with its chunks of 100 layers and the
  classifier called with the absolute starting layer, appends exactly that sequence to
  the file (on a stream that takes every write, for a chunk size that fits an \<^verbatim>\<open>int\<close>).
\<close>

theorem chunked_equals_single_pass:
  assumes "0 < gl_nVoxel (gl s) X" and "0 < gl_nVoxel (gl s) Y" and "0 < gl_nVoxel (gl s) Z"
    and "0 < K"
    and "gl_nVoxel (gl s) X * gl_nVoxel (gl s) Z * OBJ_BUFFER < 2 ^ 31"
    and "set (room (filePoiter s)) \<subseteq> {None}"
  shows "chunked_generation cf (gl s) sh K 0 buf = whole_grid cf (gl s) sh \<and>
    (\<exists>s'. generation_loop (spec_voxel cf) t 0 s = Inr s' \<and>
       content (filePoiter s') =
         content (filePoiter s) @
         map DoubleCell (whole_grid cf (gl s) (shape_of (fst (dispatch (gl s) t 0 0)))))"
proof -
  have A: "0 < gl_nVoxel (gl s) X * gl_nVoxel (gl s) Z"
    using assms(1,3) by simp
  then have A0: "0 \<le> gl_nVoxel (gl s) X * gl_nVoxel (gl s) Z" by simp
  have nY: "0 \<le> gl_nVoxel (gl s) Y" using assms(2) by simp
  have "chunked_generation cf (gl s) sh K 0 buf = whole_grid cf (gl s) sh"
    using chunked_generation_values [OF A0 order_refl assms(4), of cf sh buf]
    by (simp add: whole_grid_values [OF A0 nY])
  moreover have "\<exists>s'. generation_loop (spec_voxel cf) t 0 s = Inr s' \<and>
       content (filePoiter s') =
         content (filePoiter s) @
         map DoubleCell (whole_grid cf (gl s) (shape_of (fst (dispatch (gl s) t 0 0))))"
    using loop_spec_values [OF assms(6) A assms(5) order_refl, of cf t]
    by (auto simp: whole_grid_values [OF A0 nY])
  ultimately show ?thesis by blast
qed

lemma resolve_small_2:
  "gl_nVoxel (resolve exact small_defaults [''prog'', ''out.dat'', ''2'']) = (\<lambda>i. 3)"
  by (rule ext, case_tac i)
     (simp_all add: resolve_def compute_counts_def initial_globals_def small_defaults_def
       c_div_def Let_def)

theorem chunked_equals_single_pass_witness:
  "chunked_generation (1 / 4) (resolve exact small_defaults [''prog'', ''out.dat'', ''2''])
      SolidSphere 1 0 zeros =
     whole_grid (1 / 4) (resolve exact small_defaults [''prog'', ''out.dat'', ''2'']) SolidSphere \<and>
   (\<exists>s'. generation_loop (spec_voxel (1 / 4)) 2 0
        (snd (before_loop exact small_defaults True no_faults zeros [''prog'', ''out.dat'', ''2''])) =
        Inr s' \<and>
      content (filePoiter s') =
        map DoubleCell
          (whole_grid (1 / 4) (resolve exact small_defaults [''prog'', ''out.dat'', ''2''])
             SolidSphere))"
proof -
  let ?s = "snd (before_loop exact small_defaults True no_faults zeros [''prog'', ''out.dat'', ''2''])"
  have r: "set (room (filePoiter ?s)) \<subseteq> {None}"
    by (simp add: before_loop_def Let_def no_faults_def)
  have sh: "shape_of (fst (dispatch (gl ?s) 2 0 0)) = SolidSphere"
    by (simp add: fst_dispatch shape_of_def)
  have c: "content (filePoiter ?s) = []"
    by (simp add: before_loop_content)
  show ?thesis
    using chunked_equals_single_pass [of ?s 1 "1 / 4" SolidSphere zeros 2] r
    by (simp add: before_loop_gl resolve_small_2 OBJ_BUFFER_def sh [unfolded before_loop_gl] c)
qed

subsection \<open>The selected shape in the output\<close>

lemma chunk_grid:
  "grid (final_of (chunk V t slice s)) =
     V (gl s) (selected_generator t) (nOfSlices_at (gl s) slice) slice
       (generator_argument (gl s) t) (grid s)"
  by (simp add: chunk_def Let_def final_of_def run_call_dispatch)

lemma before_loop_grid: "grid (snd (before_loop rnd d raw e garbage argv)) = garbage"
  by (simp add: before_loop_def Let_def initial_state_def)

lemma before_loop_complete_room:
  fixes garbage :: "nat \<Rightarrow> 'v"
  assumes "set (faults e) \<subseteq> {None}"
  shows "set (room (filePoiter (snd (before_loop rnd d raw e garbage argv)))) \<subseteq> {None}"
    and "raw \<or> fst (before_loop rnd d raw e garbage argv) \<noteq> 0"
proof -
  show "set (room (filePoiter (snd (before_loop rnd d raw e garbage argv)))) \<subseteq> {None}"
    using assms set_tl_None [OF assms]
    by (auto simp: before_loop_def Let_def writeSetUp_def fwrite_room case_prod_unfold)
  have "set (room (\<lparr> content = [], room = faults e \<rparr> :: 'v stream)) \<subseteq> {None}"
    using assms by simp
  from fwrite_complete [OF this]
  show "raw \<or> fst (before_loop rnd d raw e garbage argv) \<noteq> 0"
    by (simp add: before_loop_def Let_def writeSetUp_def setUp_def sizeof_int_def)
qed

lemma main_output:
  fixes garbage :: "nat \<Rightarrow> 'v"
  assumes "2 \<le> length argv" and "length argv \<le> 4" and "fopen_ok e"
    and "set (faults e) \<subseteq> {None}"
    and "0 < gl_nVoxel (resolve rnd d argv) X * gl_nVoxel (resolve rnd d argv) Z"
    and "gl_nVoxel (resolve rnd d argv) X * gl_nVoxel (resolve rnd d argv) Z * OBJ_BUFFER < 2 ^ 31"
  shows "fst (main rnd d raw V e garbage argv) = 0"
    and "data_cells (content (filePoiter (snd (main rnd d raw V e garbage argv)))) =
           chunks_output V (resolve rnd d argv) (parse_objectType argv)
             (chunk_starts 0 (gl_nVoxel (resolve rnd d argv) Y)) garbage"
proof -
  let ?B = "before_loop rnd d raw e garbage argv"
  note R = before_loop_complete_room [OF assms(4),
      where rnd = rnd and d = d and raw = raw and garbage = garbage and argv = argv]
  have A: "0 < gl_nVoxel (gl (snd ?B)) X * gl_nVoxel (gl (snd ?B)) Z"
    and M: "gl_nVoxel (gl (snd ?B)) X * gl_nVoxel (gl (snd ?B)) Z * OBJ_BUFFER < 2 ^ 31"
    using assms(5,6) by (simp_all add: before_loop_gl)
  from loop_output [OF R(1) A M, of V "parse_objectType argv" 0]
  obtain s' where
    L: "generation_loop V (parse_objectType argv) 0 (snd ?B) = Inr s'" and
    D: "content (filePoiter s') = content (filePoiter (snd ?B)) @
        map DoubleCell (chunks_output V (resolve rnd d argv) (parse_objectType argv)
          (chunk_starts 0 (gl_nVoxel (resolve rnd d argv) Y)) garbage)"
    by (auto simp: before_loop_gl before_loop_grid)
  show "fst (main rnd d raw V e garbage argv) = 0"
    unfolding main_loop [OF assms(1-3) R(2)] using L by simp
  show "data_cells (content (filePoiter (snd (main rnd d raw V e garbage argv)))) =
           chunks_output V (resolve rnd d argv) (parse_objectType argv)
             (chunk_starts 0 (gl_nVoxel (resolve rnd d argv) Y)) garbage"
    unfolding main_loop [OF assms(1-3) R(2)] using L D
    by (simp add: before_loop_content data_cells_append data_cells_IntCell
        data_cells_DoubleCell) (simp add: data_cells_def)
qed

text \<open>
  Claim C3, as amended. The selector is \<open>atoi\<close> of the second argument, and \<open>0\<close> when the
  argument is absent: the number the string starts with, as a 32-bit \<^verbatim>\<open>int\<close>, and \<open>0\<close>
  when it starts with none (a string without a digit, for one). The value \<open>1\<close> selects
  the cube with a spherical cavity, \<open>2\<close> the solid sphere, and every other value (\<open>3\<close>,
  \<open>0\<close>, \<open>7\<close>, \<open>-1\<close>) the solid cube. A string that starts with a number selects by that
  number, whatever follows it: \<open>1abc\<close> selects the cavity, and so does \<open>4294967297\<close>,
  whose low 32 bits are \<open>1\<close>. The selected function is the one the run calls: every
  iteration leaves in the buffer what that function makes of it, and in a run that
  writes every chunk in full the data of the file are the chunks of that function.
\<close>

theorem shape_selector_dispatch:
  fixes garbage :: "nat \<Rightarrow> 'v"
  assumes "main rnd d raw V e garbage argv = (st, s)"
  shows
    "parse_objectType argv = (if 2 < length argv then atoi (argv ! 2) else 0) \<and>
     (\<forall>c \<in> set (calls s). fst c = selected_generator (parse_objectType argv)) \<and>
     (\<forall>t slice s0.
        grid (final_of (chunk V t slice s0)) =
          V (gl s0) (selected_generator t) (nOfSlices_at (gl s0) slice) slice
            (generator_argument (gl s0) t) (grid s0)) \<and>
     (2 \<le> length argv \<and> length argv \<le> 4 \<and> fopen_ok e \<and> set (faults e) \<subseteq> {None} \<and>
      0 < gl_nVoxel (resolve rnd d argv) X * gl_nVoxel (resolve rnd d argv) Z \<and>
      gl_nVoxel (resolve rnd d argv) X * gl_nVoxel (resolve rnd d argv) Z * OBJ_BUFFER < 2 ^ 31 \<longrightarrow>
        st = 0 \<and>
        data_cells (content (filePoiter s)) =
          chunks_output V (resolve rnd d argv) (parse_objectType argv)
            (chunk_starts 0 (gl_nVoxel (resolve rnd d argv) Y)) garbage) \<and>
     (\<forall>t. shape_of (selected_generator t) =
            (if t = 1 then CubeWithSphericalCavity
             else if t = 2 then SolidSphere else SolidCube)) \<and>
     (\<forall>str. (\<forall>c \<in> set str. \<not> isdigit c) \<longrightarrow> atoi str = 0) \<and>
     atoi ''1'' = 1 \<and> atoi ''2'' = 2 \<and> atoi ''3'' = 3 \<and> atoi ''0'' = 0 \<and>
     atoi ''7'' = 7 \<and> atoi ''-1'' = - 1 \<and> atoi ''1abc'' = 1 \<and> atoi ''4294967297'' = 1"
proof -
  have sel: "parse_objectType argv = (if 2 < length argv then atoi (argv ! 2) else 0)"
    by (simp add: parse_objectType_def)
  have log: "\<forall>c \<in> set (calls s). fst c = selected_generator (parse_objectType argv)"
    using main_calls [of rnd d raw V e garbage argv] assms
    by (auto simp: fst_dispatch selected_generator_def)
  have buf: "\<forall>t slice s0.
        grid (final_of (chunk V t slice s0)) =
          V (gl s0) (selected_generator t) (nOfSlices_at (gl s0) slice) slice
            (generator_argument (gl s0) t) (grid s0)"
    by (simp add: chunk_grid)
  have out: "2 \<le> length argv \<and> length argv \<le> 4 \<and> fopen_ok e \<and> set (faults e) \<subseteq> {None} \<and>
      0 < gl_nVoxel (resolve rnd d argv) X * gl_nVoxel (resolve rnd d argv) Z \<and>
      gl_nVoxel (resolve rnd d argv) X * gl_nVoxel (resolve rnd d argv) Z * OBJ_BUFFER < 2 ^ 31 \<longrightarrow>
        st = 0 \<and>
        data_cells (content (filePoiter s)) =
          chunks_output V (resolve rnd d argv) (parse_objectType argv)
            (chunk_starts 0 (gl_nVoxel (resolve rnd d argv) Y)) garbage"
  proof (intro impI, elim conjE)
    assume a: "2 \<le> length argv" "length argv \<le> 4" "fopen_ok e" "set (faults e) \<subseteq> {None}"
      "0 < gl_nVoxel (resolve rnd d argv) X * gl_nVoxel (resolve rnd d argv) Z"
      "gl_nVoxel (resolve rnd d argv) X * gl_nVoxel (resolve rnd d argv) Z * OBJ_BUFFER < 2 ^ 31"
    from main_output [OF a, of raw V garbage] assms
    show "st = 0 \<and>
        data_cells (content (filePoiter s)) =
          chunks_output V (resolve rnd d argv) (parse_objectType argv)
            (chunk_starts 0 (gl_nVoxel (resolve rnd d argv) Y)) garbage"
      by simp
  qed
  have shp: "\<forall>t. shape_of (selected_generator t) =
            (if t = 1 then CubeWithSphericalCavity
             else if t = 2 then SolidSphere else SolidCube)"
    by (simp add: selected_generator_def shape_of_def)
  have nod: "\<forall>str. (\<forall>c \<in> set str. \<not> isdigit c) \<longrightarrow> atoi str = 0"
    by (simp add: atoi_no_digit)
  have ev: "atoi ''1'' = 1 \<and> atoi ''2'' = 2 \<and> atoi ''3'' = 3 \<and> atoi ''0'' = 0 \<and>
     atoi ''7'' = 7 \<and> atoi ''-1'' = - 1 \<and> atoi ''1abc'' = 1 \<and> atoi ''4294967297'' = 1"
    by (simp add: atoi_eval)
  from sel log buf out shp nod ev show ?thesis by blast
qed

theorem shape_selector_dispatch_witness:
  "fst (main exact small_defaults False (spec_voxel (1 / 4)) no_faults zeros
      [''prog'', ''out.dat'', ''2'']) = 0 \<and>
   data_cells (content (filePoiter (snd (main exact small_defaults False (spec_voxel (1 / 4))
      no_faults zeros [''prog'', ''out.dat'', ''2''])))) =
     chunks_output (spec_voxel (1 / 4)) (resolve exact small_defaults [''prog'', ''out.dat'', ''2''])
       2 (chunk_starts 0 3) zeros \<and>
   list_all (\<lambda>c. fst c = generateSphereSlice)
     (calls (snd (main exact small_defaults False (spec_voxel (1 / 4)) no_faults zeros
        [''prog'', ''out.dat'', ''2''])))"
  using shape_selector_dispatch [OF prod.collapse [symmetric],
      where rnd = exact and d = small_defaults and raw = False and V = "spec_voxel (1 / 4)"
        and e = no_faults and garbage = zeros and argv = "[''prog'', ''out.dat'', ''2'']"]
  by (simp add: list_all_iff parse_objectType_def atoi_eval resolve_small_2 OBJ_BUFFER_def
      selected_generator_def no_faults_def)

text \<open>
  The claim as stated fails: \<open>1abc\<close> is not a number, and the run it selects is that of
  the cube with a spherical cavity, whose centre voxel is \<open>0\<close>, not that of the solid cube.
\<close>

theorem leading_number_selects_cavity:
  "atoi ''1abc'' = 1 \<and>
   calls (snd (main exact small_defaults True (spec_voxel (1 / 4)) no_faults zeros
      [''prog'', ''out.dat'', ''1abc''])) = [(generateCubeWithSphereSlice, 3, 0, 3)] \<and>
   data_cells (content (filePoiter (snd (main exact small_defaults True (spec_voxel (1 / 4))
      no_faults zeros [''prog'', ''out.dat'', ''1abc''])))) =
     [1, 1, 1, 1, 1, 1, 1, 1, 1, 1, 1, 1, 1, 0, 1, 1, 1, 1, 1, 1, 1, 1, 1, 1, 1, 1, 1]"
  by (simp add: run_eval data_cells_def upt_conv_Cons spec_voxel_def classify_def shape_of_def
      voxel_at_def density_def inside_sphere_def centre_offset_def)

subsection \<open>Determinism\<close>




















end
